theory Spec2Isabelle
  imports Complex_Main "HOL-Library.Multiset"
begin

section \<open>JavaScript values used by the game engine\<close>

text \<open>
  Model of \<^verbatim>\<open>services/gameEngine.js\<close> (class \<^verbatim>\<open>GameEngine\<close>).
  Numbers that the engine only ever uses as non-negative integers (card numbers, bingo
  numbers, indices) are \<^typ>\<open>nat\<close>, times in milliseconds are \<^typ>\<open>int\<close>. Money amounts are
  JavaScript numbers, that is IEEE 754 doubles: the type \<open>float64\<close> below.
\<close>

text \<open>Number-to-string conversion of a non-negative integer (decimal digits).\<close>

definition digit_char :: "nat \<Rightarrow> char" where
  "digit_char d = ''0123456789'' ! d"

fun show_nat :: "nat \<Rightarrow> string" where
  "show_nat n = (if n < 10 then [digit_char n] else show_nat (n div 10) @ [digit_char (n mod 10)])"

declare show_nat.simps [simp del]

section \<open>Cards, cells and draws\<close>

text \<open>
  A cell of a card grid, as \<^verbatim>\<open>generateCardNumbers\<close> builds it:
  \<^verbatim>\<open>{ letter, number, called, row, col }\<close>, with \<^verbatim>\<open>free\<close> set on the centre only
  (absent, hence falsy, elsewhere). \<open>number\<close> is \<open>None\<close> for \<^verbatim>\<open>undefined\<close>.
\<close>

record cell =
  letter :: string
  number :: "nat option"
  called :: bool
  row :: nat
  col :: nat
  free :: bool

type_synonym grid = "cell list list"

text \<open>A called number: \<^verbatim>\<open>{ letter, number, called }\<close>.\<close>

record draw =
  d_letter :: string
  d_number :: nat
  d_called :: bool

datatype error =
    TypeError
  | ReferenceError
  | GameNotAvailable
  | CardNotAvailable
  | InsufficientBalance
  | MaxCardsReached
  | CreateFailed

text \<open>The template strings \<^verbatim>\<open>`${cell.letter}${cell.number}`\<close> and \<^verbatim>\<open>`${n.letter}${n.number}`\<close>.\<close>

definition cell_key :: "cell \<Rightarrow> string" where
  "cell_key c = letter c @ (case number c of None \<Rightarrow> ''undefined'' | Some n \<Rightarrow> show_nat n)"

definition draw_key :: "draw \<Rightarrow> string" where
  "draw_key n = d_letter n @ show_nat (d_number n)"

section \<open>Win detection: \<^verbatim>\<open>checkCardForBingo\<close>\<close>

text \<open>
  \<^verbatim>\<open>cardNumbers[row][col]\<close>: reading a row or a cell that does not exist yields
  \<^verbatim>\<open>undefined\<close>, and the property access that follows throws a TypeError.
\<close>

definition cell_at :: "grid \<Rightarrow> nat \<Rightarrow> nat \<Rightarrow> cell option" where
  "cell_at g r c = (if r < length g then (if c < length (g ! r) then Some (g ! r ! c) else None) else None)"

text \<open>A cell counts when it is free or its key is in the called set.\<close>

definition cell_ok :: "string set \<Rightarrow> cell \<Rightarrow> bool" where
  "cell_ok calledSet c \<longleftrightarrow> free c \<or> cell_key c \<in> calledSet"

text \<open>
  The inner loop of the row and column checks over the positions \<open>ps\<close>:
  \<^verbatim>\<open>if (cell.free) continue; if (!calledSet.has(...)) { complete = false; break; }\<close>.
\<close>

fun line_complete :: "grid \<Rightarrow> string set \<Rightarrow> (nat \<times> nat) list \<Rightarrow> error + bool" where
  "line_complete g calledSet [] = Inr True"
| "line_complete g calledSet ((r, c) # ps) =
     (case cell_at g r c of
        None \<Rightarrow> Inl TypeError
      | Some cell \<Rightarrow>
          if free cell then line_complete g calledSet ps
          else if cell_key cell \<notin> calledSet then Inr False
          else line_complete g calledSet ps)"

text \<open>The outer loop: \<^verbatim>\<open>if (complete) return true\<close> on the first complete line.\<close>

fun any_line :: "grid \<Rightarrow> string set \<Rightarrow> (nat \<times> nat) list list \<Rightarrow> error + bool" where
  "any_line g calledSet [] = Inr False"
| "any_line g calledSet (l # ls) =
     (case line_complete g calledSet l of
        Inl e \<Rightarrow> Inl e
      | Inr True \<Rightarrow> Inr True
      | Inr False \<Rightarrow> any_line g calledSet ls)"

text \<open>
  The diagonal loop has no \<^verbatim>\<open>break\<close>: every \<open>i\<close> reads both
  \<^verbatim>\<open>cardNumbers[i][i]\<close> and \<^verbatim>\<open>cardNumbers[i][4 - i]\<close> and clears the flag of a
  diagonal whose cell does not count. It returns \<open>(diag1, diag2)\<close>.
\<close>

fun diagonals :: "grid \<Rightarrow> string set \<Rightarrow> nat list \<Rightarrow> bool \<times> bool \<Rightarrow> error + (bool \<times> bool)" where
  "diagonals g calledSet [] acc = Inr acc"
| "diagonals g calledSet (i # is) (diag1, diag2) =
     (case cell_at g i i of
        None \<Rightarrow> Inl TypeError
      | Some cell1 \<Rightarrow>
          (case cell_at g i (4 - i) of
             None \<Rightarrow> Inl TypeError
           | Some cell2 \<Rightarrow>
               diagonals g calledSet is
                 (if \<not> free cell1 \<and> cell_key cell1 \<notin> calledSet then False else diag1,
                  if \<not> free cell2 \<and> cell_key cell2 \<notin> calledSet then False else diag2)))"

definition row_lines :: "(nat \<times> nat) list list" where
  "row_lines = map (\<lambda>r. map (\<lambda>c. (r, c)) [0..<5]) [0..<5]"

definition col_lines :: "(nat \<times> nat) list list" where
  "col_lines = map (\<lambda>c. map (\<lambda>r. (r, c)) [0..<5]) [0..<5]"

definition checkCardForBingo :: "grid \<Rightarrow> draw list \<Rightarrow> error + bool" where
  "checkCardForBingo cardNumbers calledNumbers =
     (let calledSet = set (map draw_key calledNumbers) in
      case any_line cardNumbers calledSet row_lines of
        Inl e \<Rightarrow> Inl e
      | Inr True \<Rightarrow> Inr True
      | Inr False \<Rightarrow>
          (case any_line cardNumbers calledSet col_lines of
             Inl e \<Rightarrow> Inl e
           | Inr True \<Rightarrow> Inr True
           | Inr False \<Rightarrow>
               (case diagonals cardNumbers calledSet [0..<5] (True, True) of
                  Inl e \<Rightarrow> Inl e
                | Inr (diag1, diag2) \<Rightarrow> Inr (diag1 \<or> diag2))))"

text \<open>A 5 by 5 grid: five rows of five cells.\<close>

definition grid5 :: "grid \<Rightarrow> bool" where
  "grid5 g \<longleftrightarrow> length g = 5 \<and> list_all (\<lambda>r. length r = 5) g"

section \<open>Card generation: \<^verbatim>\<open>generateCardNumbers\<close>\<close>

text \<open>
  \<^verbatim>\<open>const seed = cardNumber + gameId\<close>: \<open>gameId\<close> is the round's primary key, a
  UUID string (the \<^verbatim>\<open>Card\<close> model declares \<^verbatim>\<open>game_id\<close> as \<^verbatim>\<open>DataTypes.UUID\<close>), so
  \<open>+\<close> concatenates the decimal digits of the card number and the id, and
  \<^verbatim>\<open>seed + index\<close> appends the digits of the index. \<^verbatim>\<open>Math.sin\<close> then converts that
  string to a number: NaN unless the string is a numeric literal.

  \<open>nstep\<close> scans a numeric literal that begins with a decimal digit, as every argument
  built here does: decimal digits with an optional fraction and exponent, or a
  \<^verbatim>\<open>0x\<close>, \<^verbatim>\<open>0o\<close>, \<^verbatim>\<open>0b\<close> integer.
\<close>

datatype nstate =
    NStart | NZero | NInt | NFrac | NExpStart | NExpSign | NExp
  | NHexStart | NHex | NOctStart | NOct | NBinStart | NBin | NDead

definition is_digit :: "char \<Rightarrow> bool" where
  "is_digit c \<longleftrightarrow> c \<in> set ''0123456789''"

definition is_hex_digit :: "char \<Rightarrow> bool" where
  "is_hex_digit c \<longleftrightarrow> c \<in> set ''0123456789abcdefABCDEF''"

definition is_oct_digit :: "char \<Rightarrow> bool" where
  "is_oct_digit c \<longleftrightarrow> c \<in> set ''01234567''"

definition is_bin_digit :: "char \<Rightarrow> bool" where
  "is_bin_digit c \<longleftrightarrow> c \<in> set ''01''"

fun nstep :: "nstate \<Rightarrow> char \<Rightarrow> nstate" where
  "nstep NStart c = (if c = CHR ''0'' then NZero else if is_digit c then NInt else NDead)"
| "nstep NZero c =
     (if is_digit c then NInt
      else if c = CHR ''.'' then NFrac
      else if c = CHR ''e'' \<or> c = CHR ''E'' then NExpStart
      else if c = CHR ''x'' \<or> c = CHR ''X'' then NHexStart
      else if c = CHR ''o'' \<or> c = CHR ''O'' then NOctStart
      else if c = CHR ''b'' \<or> c = CHR ''B'' then NBinStart
      else NDead)"
| "nstep NInt c =
     (if is_digit c then NInt
      else if c = CHR ''.'' then NFrac
      else if c = CHR ''e'' \<or> c = CHR ''E'' then NExpStart
      else NDead)"
| "nstep NFrac c =
     (if is_digit c then NFrac
      else if c = CHR ''e'' \<or> c = CHR ''E'' then NExpStart
      else NDead)"
| "nstep NExpStart c =
     (if is_digit c then NExp
      else if c = CHR ''+'' \<or> c = CHR ''-'' then NExpSign
      else NDead)"
| "nstep NExpSign c = (if is_digit c then NExp else NDead)"
| "nstep NExp c = (if is_digit c then NExp else NDead)"
| "nstep NHexStart c = (if is_hex_digit c then NHex else NDead)"
| "nstep NHex c = (if is_hex_digit c then NHex else NDead)"
| "nstep NOctStart c = (if is_oct_digit c then NOct else NDead)"
| "nstep NOct c = (if is_oct_digit c then NOct else NDead)"
| "nstep NBinStart c = (if is_bin_digit c then NBin else NDead)"
| "nstep NBin c = (if is_bin_digit c then NBin else NDead)"
| "nstep NDead c = NDead"

definition naccept :: "nstate \<Rightarrow> bool" where
  "naccept s \<longleftrightarrow> s \<in> {NZero, NInt, NFrac, NExp, NHex, NOct, NBin}"

definition numeric_string :: "string \<Rightarrow> bool" where
  "numeric_string s \<longleftrightarrow> naccept (foldl nstep NStart s)"

text \<open>
  A JavaScript number that may be NaN. Finite values are taken exactly, as reals; a
  literal too large for a double (which \<^verbatim>\<open>Math.sin\<close> would turn into NaN) is not
  distinguished.
\<close>

datatype jsnum = NaN | Num real

text \<open>
  \<^verbatim>\<open>const x = Math.sin(seed + index) * 10000; return x - Math.floor(x);\<close>
  \<open>msin s\<close> stands for the value of \<^verbatim>\<open>Math.sin\<close> at the number a numeric string
  \<open>s\<close> denotes; arithmetic on NaN gives NaN.
\<close>

definition seededRandom :: "(string \<Rightarrow> real) \<Rightarrow> string \<Rightarrow> nat \<Rightarrow> jsnum" where
  "seededRandom msin seed index =
     (let s = seed @ show_nat index in
      if numeric_string s then (let x = msin s * 10000 in Num (x - of_int \<lfloor>x\<rfloor>)) else NaN)"

text \<open>
  \<^verbatim>\<open>const j = Math.floor(seededRandom(colIndex * 100 + i) * (i + 1))\<close>;
  \<open>None\<close> is NaN.
\<close>

definition pick :: "(string \<Rightarrow> real) \<Rightarrow> string \<Rightarrow> nat \<Rightarrow> nat \<Rightarrow> int option" where
  "pick msin seed colIndex i =
     (case seededRandom msin seed (colIndex * 100 + i) of
        NaN \<Rightarrow> None
      | Num r \<Rightarrow> Some \<lfloor>r * of_nat (i + 1)\<rfloor>)"

text \<open>
  The array \<^verbatim>\<open>columnNumbers\<close>: its indexed elements (\<open>None\<close> is \<^verbatim>\<open>undefined\<close>) and
  the property named \<^verbatim>\<open>"NaN"\<close>, which \<^verbatim>\<open>columnNumbers[j]\<close> reads and writes when
  \<open>j\<close> is NaN.
\<close>

record colarray =
  elems :: "nat option list"
  nan_prop :: "nat option"

definition arr_get :: "colarray \<Rightarrow> int option \<Rightarrow> nat option" where
  "arr_get a j =
     (case j of
        None \<Rightarrow> nan_prop a
      | Some k \<Rightarrow> if 0 \<le> k \<and> nat k < length (elems a) then elems a ! nat k else None)"

text \<open>
  Writing past the end extends the array; a negative index names a property that
  \<^verbatim>\<open>slice\<close> never reads.
\<close>

definition arr_put :: "colarray \<Rightarrow> int option \<Rightarrow> nat option \<Rightarrow> colarray" where
  "arr_put a j v =
     (case j of
        None \<Rightarrow> a\<lparr>nan_prop := v\<rparr>
      | Some k \<Rightarrow>
          if k < 0 then a
          else if nat k < length (elems a) then a\<lparr>elems := (elems a)[nat k := v]\<rparr>
          else a\<lparr>elems := elems a @ replicate (nat k - length (elems a)) None @ [v]\<rparr>)"

text \<open>\<^verbatim>\<open>[columnNumbers[i], columnNumbers[j]] = [columnNumbers[j], columnNumbers[i]]\<close>\<close>

definition arr_swap :: "colarray \<Rightarrow> nat \<Rightarrow> int option \<Rightarrow> colarray" where
  "arr_swap a i j =
     (let v1 = arr_get a j; v2 = arr_get a (Some (int i)) in
      arr_put (arr_put a (Some (int i)) v1) j v2)"

text \<open>\<^verbatim>\<open>for (let i = columnNumbers.length - 1; i > 0; i--)\<close>, entered with counter \<open>i\<close>.\<close>

fun shuffle_from :: "(nat \<Rightarrow> int option) \<Rightarrow> nat \<Rightarrow> colarray \<Rightarrow> colarray" where
  "shuffle_from jf 0 a = a"
| "shuffle_from jf (Suc k) a = shuffle_from jf k (arr_swap a (Suc k) (jf (Suc k)))"

definition ranges :: "(string \<times> nat \<times> nat) list" where
  "ranges = [(''B'', 1, 15), (''I'', 16, 30), (''N'', 31, 45), (''G'', 46, 60), (''O'', 61, 75)]"

text \<open>One column: fill with \<open>min..max\<close>, shuffle, \<^verbatim>\<open>slice(0, 5)\<close>.\<close>

definition selectedNumbers :: "(nat \<Rightarrow> int option) \<Rightarrow> nat \<Rightarrow> nat \<Rightarrow> nat option list" where
  "selectedNumbers jf mn mx =
     (let columnNumbers = \<lparr>elems = map Some [mn..<Suc mx], nan_prop = None\<rparr> in
      take 5 (elems (shuffle_from jf (length (elems columnNumbers) - 1) columnNumbers)))"

text \<open>
  \<^verbatim>\<open>if (!numbers[rowIndex]) numbers[rowIndex] = []; numbers[rowIndex][colIndex] = {...}\<close>.
  Rows and columns are filled in increasing order, so each store is either inside the
  array or directly at its end.
\<close>

definition js_store :: "'a list \<Rightarrow> nat \<Rightarrow> 'a \<Rightarrow> 'a list" where
  "js_store xs i v = (if i < length xs then xs[i := v] else xs @ [v])"

definition set_cell :: "grid \<Rightarrow> nat \<Rightarrow> nat \<Rightarrow> cell \<Rightarrow> grid" where
  "set_cell numbers rowIndex colIndex c =
     (let numbers1 = (if rowIndex < length numbers then numbers else numbers @ [[]]) in
      numbers1[rowIndex := js_store (numbers1 ! rowIndex) colIndex c])"

definition place_column :: "grid \<Rightarrow> nat \<Rightarrow> string \<Rightarrow> nat option list \<Rightarrow> grid" where
  "place_column numbers colIndex l selected =
     foldl (\<lambda>nums (rowIndex, n).
              set_cell nums rowIndex colIndex
                \<lparr>letter = l, number = n, called = False, row = rowIndex, col = colIndex, free = False\<rparr>)
       numbers (zip [0..<length selected] selected)"

text \<open>\<^verbatim>\<open>numbers[2][2].called = true; numbers[2][2].free = true;\<close>\<close>

definition mark_center :: "grid \<Rightarrow> error + grid" where
  "mark_center numbers =
     (case cell_at numbers 2 2 of
        None \<Rightarrow> Inl TypeError
      | Some c \<Rightarrow> Inr (numbers[2 := (numbers ! 2)[2 := c\<lparr>called := True, free := True\<rparr>]]))"

definition generateCardNumbers :: "(string \<Rightarrow> real) \<Rightarrow> nat \<Rightarrow> string \<Rightarrow> error + grid" where
  "generateCardNumbers msin cardNumber gameId =
     (let seed = show_nat cardNumber @ gameId;
          numbers = foldl (\<lambda>nums (colIndex, (l, mn, mx)).
                       place_column nums colIndex l (selectedNumbers (pick msin seed colIndex) mn mx))
                     [] (zip [0..<length ranges] ranges)
      in mark_center numbers)"

text \<open>
  A round id after which no numeric literal can continue: scanned from the state the
  card number's digits leave, it reaches the dead state, so
  \<^verbatim>\<open>Number(cardNumber + gameId + index)\<close> is NaN for every card number from 1 and every
  index. A UUID is such an id.
\<close>

definition non_numeric_id :: "string \<Rightarrow> bool" where
  "non_numeric_id gameId \<longleftrightarrow> foldl nstep NInt gameId = NDead"

subsection \<open>Notions used in the proofs about card generation\<close>

text \<open>The scanner's state after one or more digits.\<close>

fun after_digits :: "nstate \<Rightarrow> nstate" where
  "after_digits NInt = NInt"
| "after_digits NFrac = NFrac"
| "after_digits NExpStart = NExp"
| "after_digits NExpSign = NExp"
| "after_digits NExp = NExp"
| "after_digits s = NDead"

definition decimal_state :: "nstate \<Rightarrow> bool" where
  "decimal_state s \<longleftrightarrow> s \<in> {NInt, NFrac, NExpStart, NExpSign, NExp, NDead}"

text \<open>The five numbers selected for column \<open>k\<close>, and the grid with given columns.\<close>

definition sel :: "(string \<Rightarrow> real) \<Rightarrow> nat \<Rightarrow> string \<Rightarrow> nat \<Rightarrow> nat option list" where
  "sel msin cardNumber gameId k =
     selectedNumbers (pick msin (show_nat cardNumber @ gameId) k)
       (fst (snd (ranges ! k))) (snd (snd (ranges ! k)))"

definition grid_of :: "(nat \<Rightarrow> nat option list) \<Rightarrow> grid" where
  "grid_of s = map (\<lambda>r. map (\<lambda>k. \<lparr>letter = fst (ranges ! k), number = s k ! r,
       called = (r = 2 \<and> k = 2), row = r, col = k, free = (r = 2 \<and> k = 2)\<rparr>) [0..<5]) [0..<5]"

section \<open>JavaScript numbers: money amounts\<close>

text \<open>
  The pot, the bet amount, the house fee and the balances are JavaScript numbers. A
  finite double is the rational it holds; \<open>fl\<close> rounds a rational to the nearest double
  (53 significant bits, ties to the even significand, gradual underflow below
  \<open>2^-1022\<close>, overflow to an infinity from \<open>2^1024\<close>). The two zeros are not
  distinguished: the engine neither divides by an amount nor prints its sign.
\<close>

datatype float64 = Finite rat | PlusInfinity | MinusInfinity | NotANumber

text \<open>The number of binary digits of a positive integer.\<close>

function bit_length :: "int \<Rightarrow> nat" where
  "bit_length n = (if n \<le> 0 then 0 else Suc (bit_length (n div 2)))"
  by pat_completeness auto

termination
  by (relation "measure nat") auto

declare bit_length.simps [simp del]

definition pow2 :: "int \<Rightarrow> rat" where
  "pow2 q = (if 0 \<le> q then 2 ^ nat q else 1 / 2 ^ nat (- q))"

text \<open>The binary exponent of a non-zero rational: \<open>pow2 (expo x) \<le> \<bar>x\<bar> < pow2 (expo x + 1)\<close>.\<close>

definition expo :: "rat \<Rightarrow> int" where
  "expo x =
     (let a = \<bar>x\<bar> in
      if 1 \<le> a then int (bit_length \<lfloor>a\<rfloor>) - 1
      else - int (bit_length (\<lceil>1 / a\<rceil> - 1)))"

definition round_even :: "rat \<Rightarrow> int" where
  "round_even y =
     (let f = \<lfloor>y\<rfloor>; d = y - of_int f in
      if d < 1 / 2 then f else if 1 / 2 < d then f + 1 else if even f then f else f + 1)"

definition fl :: "rat \<Rightarrow> float64" where
  "fl x =
     (if x = 0 then Finite 0
      else
        let q = max (expo x - 52) (- 1074);
            r = of_int (round_even (x / pow2 q)) * pow2 q
        in if r = 0 then Finite 0
           else if 1024 \<le> expo r then (if 0 < r then PlusInfinity else MinusInfinity)
           else Finite r)"

fun dneg :: "float64 \<Rightarrow> float64" where
  "dneg (Finite a) = Finite (- a)"
| "dneg PlusInfinity = MinusInfinity"
| "dneg MinusInfinity = PlusInfinity"
| "dneg NotANumber = NotANumber"

text \<open>\<^verbatim>\<open>x + y\<close>, \<^verbatim>\<open>x - y\<close>, \<^verbatim>\<open>x * y\<close> and \<^verbatim>\<open>x < y\<close> on numbers.\<close>

fun dadd :: "float64 \<Rightarrow> float64 \<Rightarrow> float64" where
  "dadd (Finite a) (Finite b) = fl (a + b)"
| "dadd NotANumber y = NotANumber"
| "dadd x NotANumber = NotANumber"
| "dadd PlusInfinity MinusInfinity = NotANumber"
| "dadd MinusInfinity PlusInfinity = NotANumber"
| "dadd PlusInfinity y = PlusInfinity"
| "dadd MinusInfinity y = MinusInfinity"
| "dadd x PlusInfinity = PlusInfinity"
| "dadd x MinusInfinity = MinusInfinity"

definition dsub :: "float64 \<Rightarrow> float64 \<Rightarrow> float64" where
  "dsub x y = dadd x (dneg y)"

definition signed_infinity :: "bool \<Rightarrow> float64" where
  "signed_infinity positive = (if positive then PlusInfinity else MinusInfinity)"

fun dmul :: "float64 \<Rightarrow> float64 \<Rightarrow> float64" where
  "dmul (Finite a) (Finite b) = fl (a * b)"
| "dmul NotANumber y = NotANumber"
| "dmul x NotANumber = NotANumber"
| "dmul (Finite a) PlusInfinity = (if a = 0 then NotANumber else signed_infinity (0 < a))"
| "dmul (Finite a) MinusInfinity = (if a = 0 then NotANumber else signed_infinity (a < 0))"
| "dmul PlusInfinity (Finite b) = (if b = 0 then NotANumber else signed_infinity (0 < b))"
| "dmul MinusInfinity (Finite b) = (if b = 0 then NotANumber else signed_infinity (b < 0))"
| "dmul PlusInfinity PlusInfinity = PlusInfinity"
| "dmul MinusInfinity MinusInfinity = PlusInfinity"
| "dmul PlusInfinity MinusInfinity = MinusInfinity"
| "dmul MinusInfinity PlusInfinity = MinusInfinity"

fun dless :: "float64 \<Rightarrow> float64 \<Rightarrow> bool" where
  "dless (Finite a) (Finite b) \<longleftrightarrow> a < b"
| "dless NotANumber y \<longleftrightarrow> False"
| "dless x NotANumber \<longleftrightarrow> False"
| "dless MinusInfinity MinusInfinity \<longleftrightarrow> False"
| "dless MinusInfinity y \<longleftrightarrow> True"
| "dless x MinusInfinity \<longleftrightarrow> False"
| "dless PlusInfinity y \<longleftrightarrow> False"
| "dless x PlusInfinity \<longleftrightarrow> True"

text \<open>The sum that \<open>n\<close> executions of \<^verbatim>\<open>game.pot += bet_amount\<close> leave in a pot that starts at 0.\<close>

fun add_times :: "float64 \<Rightarrow> nat \<Rightarrow> float64" where
  "add_times b 0 = Finite 0"
| "add_times b (Suc n) = dadd (add_times b n) b"

section \<open>Names bound in the module\<close>

text \<open>
  Lines 1 to 4 bind \<^verbatim>\<open>EventEmitter\<close>, \<^verbatim>\<open>uuidv4\<close>, \<^verbatim>\<open>RedisClient\<close> and, from
  \<^verbatim>\<open>require('../models')\<close>, \<^verbatim>\<open>Game\<close>, \<^verbatim>\<open>Card\<close> and \<^verbatim>\<open>User\<close>; line 6 declares
  \<^verbatim>\<open>GameEngine\<close>; the other names are the globals of Node.js that the methods use.
  \<^verbatim>\<open>Transaction\<close> (lines 477, 580 and 719) and \<^verbatim>\<open>sequelize\<close> (lines 332 and 338) are
  bound nowhere: evaluating either throws a ReferenceError.
\<close>

definition bound_names :: "string list" where
  "bound_names =
     [''EventEmitter'', ''uuidv4'', ''RedisClient'', ''Game'', ''Card'', ''User'', ''GameEngine'',
      ''console'', ''process'', ''Math'', ''Date'', ''JSON'', ''Map'', ''Set'', ''Object'',
      ''Error'', ''parseFloat'', ''parseInt'', ''require'', ''module'', ''setTimeout'',
      ''setInterval'', ''clearTimeout'', ''clearInterval'']"

definition resolve :: "string \<Rightarrow> error + unit" where
  "resolve name = (if name \<in> set bound_names then Inr () else Inl ReferenceError)"

section \<open>Engine state\<close>

type_synonym game_id = string
type_synonym user_id = string

datatype game_status = Waiting | Active | Completed | Cancelled

record game_settings =
  bet_amount :: float64
  house_fee :: float64
  game_duration :: int
  max_cards_per_player :: nat
  min_players :: nat

text \<open>
  A round, both as the in-memory object (\<^verbatim>\<open>game.toJSON()\<close>) and as the row of the
  \<^verbatim>\<open>Game\<close> table. Times are milliseconds since the epoch.
\<close>

record game =
  status :: game_status
  pot :: float64
  start_time :: int
  settings :: game_settings
  called_numbers :: "draw list"
  current_calls :: "draw list"
  winner_id :: "user_id option"
  winning_card :: "nat option"
  end_time :: "int option"

record card =
  game_id :: game_id
  card_number :: nat
  numbers :: grid
  user_id :: "user_id option"
  is_winner :: bool
  purchased_at :: "int option"

record user =
  balance :: float64
  total_won :: float64
  games_played :: nat
  games_won :: nat

datatype transaction_type = Bet | Win | Refund

record transaction =
  t_user_id :: user_id
  t_type :: transaction_type
  t_amount :: float64
  t_game_id :: game_id
  t_card_number :: nat
  t_pot :: "float64 option"

text \<open>
  The closure of the \<^verbatim>\<open>setInterval\<close> callback that \<^verbatim>\<open>callNumbers\<close> installs:
  \<^verbatim>\<open>allNumbers\<close>, \<^verbatim>\<open>startTime\<close> and \<^verbatim>\<open>numberIndex\<close>. Its \<^verbatim>\<open>game\<close> is the object
  stored in \<^verbatim>\<open>activeGames\<close> under the same id.
\<close>

record caller =
  allNumbers :: "draw list"
  startTime :: int
  numberIndex :: nat

text \<open>
  The engine's maps and the tables it writes. \<open>callers\<close> holds the running intervals
  by round; \<open>db_transactions\<close> is the table of the \<^verbatim>\<open>Transaction\<close> model, in creation
  order.

  The tables are reached through the models. \<^verbatim>\<open>Game\<close> is not among the sources; a call
  on \<^verbatim>\<open>Game\<close>, \<^verbatim>\<open>Card\<close> or \<^verbatim>\<open>User\<close> is taken as the table operation its name and
  arguments describe, and as succeeding; \<^verbatim>\<open>User.increment\<close> and \<^verbatim>\<open>User.decrement\<close> add
  and subtract as JavaScript does. Events, the Redis snapshot, the countdown timers and
  \<^verbatim>\<open>markNumberOnCards\<close> are left out: the latter fails at \<^verbatim>\<open>sequelize\<close>, catches its own
  error and changes nothing. A round that a timer creates later is a \<^verbatim>\<open>createNewGame\<close>
  step of its own.
\<close>

record engine =
  waitingGames :: "game_id \<rightharpoonup> game"
  activeGames :: "game_id \<rightharpoonup> game"
  callers :: "game_id \<rightharpoonup> caller"
  db_games :: "game_id \<rightharpoonup> game"
  db_cards :: "card list"
  db_users :: "user_id \<rightharpoonup> user"
  db_transactions :: "transaction list"

text \<open>
  What the engine takes from its surroundings: \<^verbatim>\<open>Math.sin\<close> on numeric strings, the
  settings read from \<^verbatim>\<open>process.env\<close>, and the order in which the database returns the
  rows of a \<^verbatim>\<open>findAll\<close> that has no \<^verbatim>\<open>order\<close> clause.
\<close>

record runtime =
  math_sin :: "string \<Rightarrow> real"
  env_settings :: game_settings
  db_order :: "card list \<Rightarrow> card list"

definition init_engine :: engine where
  "init_engine = \<lparr>waitingGames = Map.empty, activeGames = Map.empty, callers = Map.empty,
     db_games = Map.empty, db_cards = [], db_users = Map.empty, db_transactions = []\<rparr>"

text \<open>\<^verbatim>\<open>Game.update(patch, { where: { id } })\<close> and \<^verbatim>\<open>User.increment\<close>: no row, no change.\<close>

definition update_game :: "game_id \<Rightarrow> (game \<Rightarrow> game) \<Rightarrow> engine \<Rightarrow> engine" where
  "update_game gid f st =
     (case db_games st gid of
        None \<Rightarrow> st
      | Some g \<Rightarrow> st\<lparr>db_games := (db_games st)(gid \<mapsto> f g)\<rparr>)"

definition update_user :: "user_id \<Rightarrow> (user \<Rightarrow> user) \<Rightarrow> engine \<Rightarrow> engine" where
  "update_user uid f st =
     (case db_users st uid of
        None \<Rightarrow> st
      | Some u \<Rightarrow> st\<lparr>db_users := (db_users st)(uid \<mapsto> f u)\<rparr>)"

text \<open>
  \<^verbatim>\<open>await Transaction.create({...})\<close>: the identifier is resolved first. Were it bound,
  the row would be appended to the table.
\<close>

definition create_transaction :: "transaction \<Rightarrow> engine \<Rightarrow> engine" where
  "create_transaction t st = st\<lparr>db_transactions := db_transactions st @ [t]\<rparr>"

definition Transaction_create :: "transaction \<Rightarrow> engine \<Rightarrow> error + engine" where
  "Transaction_create t st =
     (case resolve ''Transaction'' of
        Inl e \<Rightarrow> Inl e
      | Inr u \<Rightarrow> Inr (create_transaction t st))"

text \<open>The rows \<^verbatim>\<open>{ game_id: gameId, user_id: { $not: null } }\<close>: the purchased cards of a round.\<close>

definition purchased :: "game_id \<Rightarrow> card \<Rightarrow> bool" where
  "purchased gid c \<longleftrightarrow> game_id c = gid \<and> user_id c \<noteq> None"

definition purchased_cards :: "engine \<Rightarrow> game_id \<Rightarrow> card list" where
  "purchased_cards st gid = filter (purchased gid) (db_cards st)"

section \<open>Creating a round\<close>

fun generate_cards :: "(string \<Rightarrow> real) \<Rightarrow> game_id \<Rightarrow> nat list \<Rightarrow> error + card list" where
  "generate_cards msin gameId [] = Inr []"
| "generate_cards msin gameId (cardNum # rest) =
     (case generateCardNumbers msin cardNum gameId of
        Inl e \<Rightarrow> Inl e
      | Inr nums \<Rightarrow>
          (case generate_cards msin gameId rest of
             Inl e \<Rightarrow> Inl e
           | Inr cards \<Rightarrow>
               Inr (\<lparr>game_id = gameId, card_number = cardNum, numbers = nums, user_id = None,
                      is_winner = False, purchased_at = None\<rparr> # cards)))"

text \<open>\<^verbatim>\<open>for (let cardNum = 1; cardNum <= 400; cardNum++)\<close>, then \<^verbatim>\<open>Card.bulkCreate(cards)\<close>.\<close>

definition generateGameCards :: "runtime \<Rightarrow> engine \<Rightarrow> game_id \<Rightarrow> (error + unit) \<times> engine" where
  "generateGameCards rt st gameId =
     (case generate_cards (math_sin rt) gameId [1..<401] of
        Inl e \<Rightarrow> (Inl e, st)
      | Inr cards \<Rightarrow> (Inr (), st\<lparr>db_cards := db_cards st @ cards\<rparr>))"

text \<open>
  \<open>newId\<close> is the primary key the database gives the new row; \<^verbatim>\<open>Game.create\<close> rejects a
  key that exists. The settings are the environment's, with \<^verbatim>\<open>min_players: 1\<close>; the new
  round has pot \<^verbatim>\<open>0.00\<close>, no called numbers and no winner. An error is logged and thrown
  again.
\<close>

definition createNewGame :: "runtime \<Rightarrow> engine \<Rightarrow> game_id \<Rightarrow> int \<Rightarrow> (error + game) \<times> engine" where
  "createNewGame rt st newId now =
     (if newId \<in> dom (db_games st) then (Inl CreateFailed, st)
      else
        let game = \<lparr>status = Waiting, pot = Finite 0, start_time = now + 30000,
                    settings = (env_settings rt)\<lparr>min_players := 1\<rparr>,
                    called_numbers = [], current_calls = [], winner_id = None,
                    winning_card = None, end_time = None\<rparr>;
            st1 = st\<lparr>db_games := (db_games st)(newId \<mapsto> game)\<rparr>
        in case generateGameCards rt st1 newId of
             (Inl e, st2) \<Rightarrow> (Inl e, st2)
           | (Inr u, st2) \<Rightarrow> (Inr game, st2\<lparr>waitingGames := (waitingGames st2)(newId \<mapsto> game)\<rparr>))"

section \<open>Settling a round\<close>

text \<open>
  \<^verbatim>\<open>declareWinner\<close>, lines 432 to 521. The whole body is inside \<^verbatim>\<open>try\<close>; the
  \<^verbatim>\<open>catch\<close> logs the error and returns. The row and the user are written before
  \<^verbatim>\<open>Transaction.create\<close> (line 477); the in-memory object is updated and the round
  removed from \<^verbatim>\<open>activeGames\<close> only after it (lines 490 to 496).
\<close>

definition declareWinner :: "engine \<Rightarrow> game_id \<Rightarrow> user_id \<Rightarrow> nat \<Rightarrow> int \<Rightarrow> engine" where
  "declareWinner st gameId userId cardNumber now =
     (case activeGames st gameId of
        None \<Rightarrow> st
      | Some game \<Rightarrow>
          if winner_id game \<noteq> None then st
          else
            let winnings = dmul (pot game) (dsub (Finite 1) (house_fee (settings game)));
                st1 = update_game gameId
                        (\<lambda>g. g\<lparr>status := Completed, winner_id := Some userId,
                                winning_card := Some cardNumber, end_time := Some now\<rparr>) st;
                st2 = update_user userId (\<lambda>u. u\<lparr>balance := dadd (balance u) winnings\<rparr>) st1;
                st3 = update_user userId (\<lambda>u. u\<lparr>total_won := dadd (total_won u) winnings\<rparr>) st2;
                st4 = update_user userId (\<lambda>u. u\<lparr>games_won := games_won u + 1\<rparr>) st3;
                st5 = st4\<lparr>db_cards :=
                        map (\<lambda>c. if game_id c = gameId \<and> card_number c = cardNumber
                                  then c\<lparr>is_winner := True\<rparr> else c) (db_cards st4)\<rparr>
            in case Transaction_create
                      \<lparr>t_user_id = userId, t_type = Win, t_amount = winnings,
                       t_game_id = gameId, t_card_number = cardNumber, t_pot = Some (pot game)\<rparr> st5 of
                 Inl e \<Rightarrow> st5
               | Inr st6 \<Rightarrow>
                   let game' = game\<lparr>status := Completed, winner_id := Some userId,
                                     winning_card := Some cardNumber, end_time := Some now\<rparr>;
                       st7 = st6\<lparr>activeGames := (activeGames st6)(gameId \<mapsto> game')\<rparr>
                   in st7\<lparr>activeGames := (activeGames st7)(gameId := None)\<rparr>)"

definition endGame :: "engine \<Rightarrow> game_id \<Rightarrow> int \<Rightarrow> engine" where
  "endGame st gameId now =
     (case activeGames st gameId of
        None \<Rightarrow> st
      | Some game \<Rightarrow>
          let st1 = update_game gameId (\<lambda>g. g\<lparr>status := Completed, end_time := Some now\<rparr>) st
          in st1\<lparr>activeGames := (activeGames st1)(gameId := None)\<rparr>)"

text \<open>
  The refund loop of \<^verbatim>\<open>cancelGame\<close> (lines 574 to 587) over the rows \<^verbatim>\<open>findAll\<close>
  returned: \<^verbatim>\<open>User.increment\<close>, then \<^verbatim>\<open>Transaction.create\<close>. An error leaves the loop
  with the state reached so far.
\<close>

fun refund_cards :: "game_id \<Rightarrow> game \<Rightarrow> card list \<Rightarrow> engine \<Rightarrow> (error + unit) \<times> engine" where
  "refund_cards gameId game [] st = (Inr (), st)"
| "refund_cards gameId game (c # cs) st =
     (case user_id c of
        None \<Rightarrow> refund_cards gameId game cs st
      | Some uid \<Rightarrow>
          let st1 = update_user uid
                      (\<lambda>u. u\<lparr>balance := dadd (balance u) (bet_amount (settings game))\<rparr>) st
          in case Transaction_create
                    \<lparr>t_user_id = uid, t_type = Refund, t_amount = bet_amount (settings game),
                     t_game_id = gameId, t_card_number = card_number c, t_pot = None\<rparr> st1 of
               Inl e \<Rightarrow> (Inl e, st1)
             | Inr st2 \<Rightarrow> refund_cards gameId game cs st2)"

text \<open>
  \<^verbatim>\<open>cancelGame\<close>, lines 555 to 606, again one \<^verbatim>\<open>try\<close> whose \<^verbatim>\<open>catch\<close> logs and
  returns: an error of the loop skips \<^verbatim>\<open>waitingGames.delete\<close> and the replacement round.
  \<open>newId\<close> is the key of the replacement.
\<close>

definition cancelGame :: "runtime \<Rightarrow> engine \<Rightarrow> game_id \<Rightarrow> int \<Rightarrow> game_id \<Rightarrow> engine" where
  "cancelGame rt st gameId now newId =
     (case waitingGames st gameId of
        None \<Rightarrow> st
      | Some game \<Rightarrow>
          let st1 = update_game gameId (\<lambda>g. g\<lparr>status := Cancelled, end_time := Some now\<rparr>) st;
              cards = db_order rt (purchased_cards st1 gameId)
          in case refund_cards gameId game cards st1 of
               (Inl e, st2) \<Rightarrow> st2
             | (Inr u, st2) \<Rightarrow>
                 let st3 = st2\<lparr>waitingGames := (waitingGames st2)(gameId := None)\<rparr>
                 in snd (createNewGame rt st3 newId now))"

section \<open>Joining and purchasing\<close>

text \<open>\<^verbatim>\<open>Card.count({ where: { game_id, user_id } })\<close>\<close>

definition user_card_count :: "engine \<Rightarrow> game_id \<Rightarrow> user_id \<Rightarrow> nat" where
  "user_card_count st gid uid =
     length (filter (\<lambda>c. game_id c = gid \<and> user_id c = Some uid) (db_cards st))"

definition joinGame :: "engine \<Rightarrow> game_id \<Rightarrow> user_id \<Rightarrow> error + game" where
  "joinGame st gameId userId =
     (case waitingGames st gameId of
        None \<Rightarrow> Inl GameNotAvailable
      | Some game \<Rightarrow>
          if status game \<noteq> Waiting then Inl GameNotAvailable
          else if user_card_count st gameId userId \<ge> max_cards_per_player (settings game)
          then Inl MaxCardsReached
          else Inr game)"

text \<open>\<^verbatim>\<open>card.save()\<close> writes the row that \<^verbatim>\<open>Card.findOne\<close> returned.\<close>

fun save_card :: "(card \<Rightarrow> bool) \<Rightarrow> card \<Rightarrow> card list \<Rightarrow> card list" where
  "save_card P c' [] = []"
| "save_card P c' (c # cs) = (if P c then c' # cs else c # save_card P c' cs)"

definition available :: "game_id \<Rightarrow> nat \<Rightarrow> card \<Rightarrow> bool" where
  "available gid n c \<longleftrightarrow> game_id c = gid \<and> card_number c = n \<and> user_id c = None"

text \<open>
  \<^verbatim>\<open>purchaseCard\<close>, lines 671 to 746. The result pairs what the call returns or throws
  with the state it leaves; the \<^verbatim>\<open>catch\<close> logs the error and throws it again. Reading
  \<^verbatim>\<open>user.balance\<close> of a user that does not exist throws a TypeError. The balance, the
  card and the pot are written before \<^verbatim>\<open>Transaction.create\<close> (line 719);
  \<^verbatim>\<open>games_played\<close> and \<^verbatim>\<open>return card\<close> come after it.
\<close>

definition purchaseCard :: "engine \<Rightarrow> game_id \<Rightarrow> user_id \<Rightarrow> nat \<Rightarrow> int \<Rightarrow> (error + card) \<times> engine" where
  "purchaseCard st gameId userId cardNumber now =
     (case waitingGames st gameId of
        None \<Rightarrow> (Inl GameNotAvailable, st)
      | Some game \<Rightarrow>
          if status game \<noteq> Waiting then (Inl GameNotAvailable, st)
          else
            (case find (available gameId cardNumber) (db_cards st) of
               None \<Rightarrow> (Inl CardNotAvailable, st)
             | Some crd \<Rightarrow>
                 (case db_users st userId of
                    None \<Rightarrow> (Inl TypeError, st)
                  | Some user \<Rightarrow>
                      if dless (balance user) (bet_amount (settings game))
                      then (Inl InsufficientBalance, st)
                      else
                        let st1 = update_user userId
                                    (\<lambda>u. u\<lparr>balance := dsub (balance u) (bet_amount (settings game))\<rparr>) st;
                            card' = crd\<lparr>user_id := Some userId, purchased_at := Some now\<rparr>;
                            st2 = st1\<lparr>db_cards :=
                                    save_card (available gameId cardNumber) card' (db_cards st1)\<rparr>;
                            game' = game\<lparr>pot := dadd (pot game) (bet_amount (settings game))\<rparr>;
                            st3 = update_game gameId (\<lambda>g. g\<lparr>pot := pot game'\<rparr>) st2;
                            st4 = st3\<lparr>waitingGames := (waitingGames st3)(gameId \<mapsto> game')\<rparr>
                        in case Transaction_create
                                  \<lparr>t_user_id = userId, t_type = Bet,
                                   t_amount = bet_amount (settings game), t_game_id = gameId,
                                   t_card_number = cardNumber, t_pot = None\<rparr> st4 of
                             Inl e \<Rightarrow> (Inl e, st4)
                           | Inr st5 \<Rightarrow>
                               (Inr card',
                                update_user userId
                                  (\<lambda>u. u\<lparr>games_played := games_played u + 1\<rparr>) st5))))"

section \<open>Calling numbers and the win sweep\<close>

text \<open>The 75 numbers in the order \<^verbatim>\<open>callNumbers\<close> generates them.\<close>

definition call_ranges :: "(string \<times> nat \<times> nat) list" where
  "call_ranges = [(''B'', 1, 15), (''I'', 16, 30), (''N'', 31, 45), (''G'', 46, 60), (''O'', 61, 75)]"

definition all_draws :: "draw list" where
  "all_draws =
     concat (map (\<lambda>(l, start, end).
                    map (\<lambda>num. \<lparr>d_letter = l, d_number = num, d_called = False\<rparr>) [start..<Suc end])
                 call_ranges)"

text \<open>
  The shuffle of \<^verbatim>\<open>callNumbers\<close>: \<open>rand i\<close> is the value \<^verbatim>\<open>Math.random()\<close> returns in
  the pass with counter \<open>i\<close>, a number in \<open>[0, 1)\<close>, so \<open>j \<le> i\<close> and both indices are
  inside the array (the runs of the engine below take only such values).
\<close>

definition swap_draws :: "draw list \<Rightarrow> nat \<Rightarrow> int \<Rightarrow> draw list" where
  "swap_draws xs i j =
     (if 0 \<le> j \<and> nat j < length xs \<and> i < length xs then xs[i := xs ! nat j, nat j := xs ! i] else xs)"

fun shuffle_draws :: "(nat \<Rightarrow> real) \<Rightarrow> nat \<Rightarrow> draw list \<Rightarrow> draw list" where
  "shuffle_draws rand 0 xs = xs"
| "shuffle_draws rand (Suc k) xs =
     shuffle_draws rand k (swap_draws xs (Suc k) \<lfloor>rand (Suc k) * of_nat (Suc k + 1)\<rfloor>)"

text \<open>\<^verbatim>\<open>callNumbers\<close> up to the installation of the interval.\<close>

definition callNumbers :: "engine \<Rightarrow> game_id \<Rightarrow> int \<Rightarrow> (nat \<Rightarrow> real) \<Rightarrow> engine" where
  "callNumbers st gameId now rand =
     (case activeGames st gameId of
        None \<Rightarrow> st
      | Some game \<Rightarrow>
          st\<lparr>callers := (callers st)(gameId \<mapsto>
               \<lparr>allNumbers = shuffle_draws rand (length all_draws - 1) all_draws,
                startTime = now, numberIndex = 0\<rparr>)\<rparr>)"

text \<open>
  The loop of \<^verbatim>\<open>checkForWinners\<close> over the rows \<^verbatim>\<open>Card.findAll\<close> returned: the first
  card that has a bingo, if any. An exception of the check leaves the loop (it is caught
  and logged).
\<close>

fun first_bingo :: "draw list \<Rightarrow> card list \<Rightarrow> error + card option" where
  "first_bingo calledNumbers [] = Inr None"
| "first_bingo calledNumbers (c # cs) =
     (case checkCardForBingo (numbers c) calledNumbers of
        Inl e \<Rightarrow> Inl e
      | Inr True \<Rightarrow> Inr (Some c)
      | Inr False \<Rightarrow> first_bingo calledNumbers cs)"

definition checkForWinners :: "runtime \<Rightarrow> engine \<Rightarrow> game_id \<Rightarrow> int \<Rightarrow> engine" where
  "checkForWinners rt st gameId now =
     (case activeGames st gameId of
        None \<Rightarrow> st
      | Some game \<Rightarrow>
          (case first_bingo (called_numbers game) (db_order rt (purchased_cards st gameId)) of
             Inl e \<Rightarrow> st
           | Inr None \<Rightarrow> st
           | Inr (Some c) \<Rightarrow>
               (case user_id c of
                  None \<Rightarrow> st
                | Some uid \<Rightarrow> declareWinner st gameId uid (card_number c) now)))"

text \<open>
  One firing of the interval callback. \<^verbatim>\<open>clearInterval\<close> removes the caller. The
  callback's \<^verbatim>\<open>game\<close> is the object under \<open>gameId\<close> in \<^verbatim>\<open>activeGames\<close>, so the push
  onto \<^verbatim>\<open>game.called_numbers\<close> shows there.
\<close>

definition tick :: "runtime \<Rightarrow> engine \<Rightarrow> game_id \<Rightarrow> int \<Rightarrow> engine" where
  "tick rt st gameId now =
     (case callers st gameId of
        None \<Rightarrow> st
      | Some clr \<Rightarrow>
          (case activeGames st gameId of
             None \<Rightarrow> st\<lparr>callers := (callers st)(gameId := None)\<rparr>
           | Some game \<Rightarrow>
               if now - startTime clr > game_duration (settings game) * 1000
                  \<or> numberIndex clr \<ge> length (allNumbers clr)
               then endGame (st\<lparr>callers := (callers st)(gameId := None)\<rparr>) gameId now
               else
                 let n = (allNumbers clr ! numberIndex clr)\<lparr>d_called := True\<rparr>;
                     clr' = clr\<lparr>allNumbers := (allNumbers clr)[numberIndex clr := n],
                                numberIndex := numberIndex clr + 1\<rparr>;
                     called' = called_numbers game @ [n];
                     game' = game\<lparr>called_numbers := called',
                                   current_calls := drop (length called' - 3) called'\<rparr>;
                     st1 = st\<lparr>callers := (callers st)(gameId \<mapsto> clr'),
                              activeGames := (activeGames st)(gameId \<mapsto> game')\<rparr>;
                     st2 = update_game gameId
                             (\<lambda>g. g\<lparr>called_numbers := called_numbers game',
                                     current_calls := current_calls game'\<rparr>) st1
                 in checkForWinners rt st2 gameId now))"

section \<open>Countdown expiry: \<^verbatim>\<open>startGame\<close>\<close>

definition startGame ::
  "runtime \<Rightarrow> engine \<Rightarrow> game_id \<Rightarrow> int \<Rightarrow> (nat \<Rightarrow> real) \<Rightarrow> game_id \<Rightarrow> engine" where
  "startGame rt st gameId now rand newId =
     (case waitingGames st gameId of
        None \<Rightarrow> st
      | Some game \<Rightarrow>
          let cards = length (purchased_cards st gameId) in
          if cards < 1 then cancelGame rt st gameId now newId
          else
            let st1 = update_game gameId (\<lambda>g. g\<lparr>status := Active, start_time := now\<rparr>) st;
                game' = game\<lparr>status := Active, start_time := now\<rparr>;
                st2 = st1\<lparr>waitingGames := (waitingGames st1)(gameId := None),
                         activeGames := (activeGames st1)(gameId \<mapsto> game')\<rparr>
            in callNumbers st2 gameId now rand)"

section \<open>Looking a round up\<close>

text \<open>
  The live object of a round, as \<^verbatim>\<open>getGameState\<close> looks it up:
  \<^verbatim>\<open>this.waitingGames.get(gameId) || this.activeGames.get(gameId)\<close>.
\<close>

definition live_game :: "engine \<Rightarrow> game_id \<Rightarrow> game option" where
  "live_game st gameId =
     (case waitingGames st gameId of Some g \<Rightarrow> Some g | None \<Rightarrow> activeGames st gameId)"

section \<open>Runs of the engine\<close>

text \<open>
  The states the engine reaches from its start: rounds are created (by the scheduler, by
  a cancellation or by the timer that \<^verbatim>\<open>endGame\<close> sets), users register and deposit (outside the engine), cards are
  purchased, countdowns expire and intervals fire. Each step runs to its end before the
  next begins; a call that throws leaves the state it had reached. The reload of rounds
  at start-up and the hourly deletion of completed rows older than a day are not steps
  of these runs.
\<close>

inductive reachable :: "runtime \<Rightarrow> engine \<Rightarrow> bool" for rt :: runtime where
  r_init: "reachable rt init_engine"
| r_create: "reachable rt st \<Longrightarrow> reachable rt (snd (createNewGame rt st newId now))"
| r_user: "reachable rt st \<Longrightarrow> reachable rt (st\<lparr>db_users := (db_users st)(uid \<mapsto> u)\<rparr>)"
| r_purchase: "reachable rt st \<Longrightarrow> reachable rt (snd (purchaseCard st gameId userId cardNumber now))"
| r_start: "reachable rt st \<Longrightarrow> \<forall>i. 0 \<le> rand i \<and> rand i < 1 \<Longrightarrow>
            reachable rt (startGame rt st gameId now rand newId)"
| r_tick: "reachable rt st \<Longrightarrow> reachable rt (tick rt st gameId now)"

section \<open>Notions used in the proofs about the engine\<close>

text \<open>The round and the cards that \<^verbatim>\<open>createNewGame\<close> creates.\<close>

definition new_game :: "runtime \<Rightarrow> int \<Rightarrow> game" where
  "new_game rt now = \<lparr>status = Waiting, pot = Finite 0, start_time = now + 30000,
     settings = (env_settings rt)\<lparr>min_players := 1\<rparr>, called_numbers = [], current_calls = [],
     winner_id = None, winning_card = None, end_time = None\<rparr>"

definition new_card :: "runtime \<Rightarrow> game_id \<Rightarrow> nat \<Rightarrow> card" where
  "new_card rt gid n = \<lparr>game_id = gid, card_number = n,
     numbers = grid_of (sel (math_sin rt) n gid), user_id = None, is_winner = False,
     purchased_at = None\<rparr>"

definition inv_ids :: "engine \<Rightarrow> bool" where
  "inv_ids st \<longleftrightarrow>
     (\<forall>c \<in> set (db_cards st). game_id c \<in> dom (db_games st)) \<and>
     dom (waitingGames st) \<subseteq> dom (db_games st) \<and>
     dom (activeGames st) \<subseteq> dom (db_games st) \<and>
     dom (waitingGames st) \<inter> dom (activeGames st) = {}"

definition inv_pot :: "engine \<Rightarrow> bool" where
  "inv_pot st \<longleftrightarrow>
     (\<forall>gid g. waitingGames st gid = Some g \<or> activeGames st gid = Some g \<longrightarrow>
        pot g = add_times (bet_amount (settings g)) (length (purchased_cards st gid)))"

definition inv :: "engine \<Rightarrow> bool" where
  "inv st \<longleftrightarrow> inv_ids st \<and> inv_pot st"

text \<open>
  A step that takes no round into the maps, changes none that stays, and leaves the
  rounds and the owners of the cards as they are.
\<close>

definition shrinks :: "engine \<Rightarrow> engine \<Rightarrow> bool" where
  "shrinks st st' \<longleftrightarrow>
     (\<forall>gid g. waitingGames st' gid = Some g \<longrightarrow> waitingGames st gid = Some g) \<and>
     (\<forall>gid g. activeGames st' gid = Some g \<longrightarrow> activeGames st gid = Some g) \<and>
     dom (db_games st') = dom (db_games st) \<and>
     map game_id (db_cards st') = map game_id (db_cards st) \<and>
     map user_id (db_cards st') = map user_id (db_cards st)"

text \<open>The state of a tick after the draw, before the sweep.\<close>

definition drawn :: "engine \<Rightarrow> game_id \<Rightarrow> caller \<Rightarrow> game \<Rightarrow> engine" where
  "drawn st gameId clr game =
     (let n = (allNumbers clr ! numberIndex clr)\<lparr>d_called := True\<rparr>;
          called' = called_numbers game @ [n]
      in update_game gameId
           (\<lambda>g. g\<lparr>called_numbers := called', current_calls := drop (length called' - 3) called'\<rparr>)
           (st\<lparr>callers := (callers st)(gameId \<mapsto>
                   clr\<lparr>allNumbers := (allNumbers clr)[numberIndex clr := n],
                       numberIndex := numberIndex clr + 1\<rparr>),
               activeGames := (activeGames st)(gameId \<mapsto>
                   game\<lparr>called_numbers := called',
                        current_calls := drop (length called' - 3) called'\<rparr>)\<rparr>))"

section \<open>Example data\<close>

definition ex_grid :: grid where
  "ex_grid = map (\<lambda>r. map (\<lambda>c. \<lparr>letter = [''BINGO'' ! c], number = Some (15 * c + r + 1),
       called = (r = 2 \<and> c = 2), row = r, col = c, free = (r = 2 \<and> c = 2)\<rparr>) [0..<5]) [0..<5]"

definition ex_draw :: "string \<Rightarrow> nat \<Rightarrow> draw" where
  "ex_draw l n = \<lparr>d_letter = l, d_number = n, d_called = True\<rparr>"

text \<open>Row 0 of \<open>ex_grid\<close>; its main diagonal (the centre is free); five draws that complete no line.\<close>

definition ex_row0 :: "draw list" where
  "ex_row0 = [ex_draw ''B'' 1, ex_draw ''I'' 16, ex_draw ''N'' 31, ex_draw ''G'' 46, ex_draw ''O'' 61]"

definition ex_diag :: "draw list" where
  "ex_diag = [ex_draw ''B'' 1, ex_draw ''I'' 17, ex_draw ''G'' 49, ex_draw ''O'' 65]"

definition ex_none :: "draw list" where
  "ex_none = [ex_draw ''B'' 1, ex_draw ''I'' 17, ex_draw ''G'' 49, ex_draw ''O'' 64, ex_draw ''N'' 31]"

text \<open>The default settings: \<^verbatim>\<open>parseFloat(10.00)\<close> and \<^verbatim>\<open>parseFloat(0.05)\<close>.\<close>

definition ex_settings :: game_settings where
  "ex_settings = \<lparr>bet_amount = Finite 10, house_fee = fl (5 / 100), game_duration = 180,
     max_cards_per_player = 5, min_players = 1\<rparr>"

definition ex_game :: game where
  "ex_game = \<lparr>status = Active, pot = Finite 100, start_time = 0, settings = ex_settings,
     called_numbers = [], current_calls = [], winner_id = None, winning_card = None,
     end_time = None\<rparr>"

definition ex_user :: user where
  "ex_user = \<lparr>balance = Finite 7, total_won = Finite 0, games_played = 10, games_won = 0\<rparr>"

text \<open>An engine with one active round of pot 100 and one user.\<close>

definition ex_active :: engine where
  "ex_active = \<lparr>waitingGames = Map.empty, activeGames = [''g1'' \<mapsto> ex_game],
     callers = Map.empty, db_games = [''g1'' \<mapsto> ex_game], db_cards = [],
     db_users = [''u1'' \<mapsto> ex_user], db_transactions = []\<rparr>"

definition ex_card :: "nat \<Rightarrow> user_id option \<Rightarrow> card" where
  "ex_card n owner = \<lparr>game_id = ''g1'', card_number = n, numbers = ex_grid, user_id = owner,
     is_winner = False, purchased_at = map_option (\<lambda>u. 0) owner\<rparr>"

text \<open>A card whose numbers are all one higher than those of \<open>ex_grid\<close>.\<close>

definition ex_other_card :: "nat \<Rightarrow> user_id option \<Rightarrow> card" where
  "ex_other_card n owner =
     (ex_card n owner)\<lparr>numbers := map (map (\<lambda>c. c\<lparr>number := map_option Suc (number c)\<rparr>)) ex_grid\<rparr>"

definition ex_rt :: runtime where
  "ex_rt = \<lparr>math_sin = (\<lambda>s. 0), env_settings = ex_settings, db_order = (\<lambda>cs. cs)\<rparr>"

text \<open>
  A waiting round with cap 5 in which user \<open>u1\<close> owns cards 1 to 5 and cards 6 and 7
  are free.
\<close>

definition ex_waiting :: engine where
  "ex_waiting = \<lparr>waitingGames = [''g1'' \<mapsto> ex_game\<lparr>status := Waiting, pot := Finite 50\<rparr>],
     activeGames = Map.empty, callers = Map.empty,
     db_games = [''g1'' \<mapsto> ex_game\<lparr>status := Waiting, pot := Finite 50\<rparr>],
     db_cards = map (\<lambda>n. ex_card n (Some ''u1'')) [1..<6] @ [ex_card 6 None, ex_card 7 None],
     db_users = [''u1'' \<mapsto> ex_user\<lparr>balance := Finite 100\<rparr>], db_transactions = []\<rparr>"

text \<open>
  An active round in which row 0 of \<open>ex_grid\<close> has just been completed by the last call;
  cards 3 and 7 carry that grid, card 2 another one.
\<close>

definition ex_sweep :: engine where
  "ex_sweep = \<lparr>waitingGames = Map.empty,
     activeGames = [''g1'' \<mapsto> ex_game\<lparr>pot := Finite 30, called_numbers := ex_row0\<rparr>],
     callers = Map.empty,
     db_games = [''g1'' \<mapsto> ex_game\<lparr>pot := Finite 30, called_numbers := ex_row0\<rparr>],
     db_cards = [ex_card 1 None, ex_other_card 2 (Some ''u1''), ex_card 3 (Some ''u2''),
                 ex_card 7 (Some ''u1'')],
     db_users = [''u1'' \<mapsto> ex_user, ''u2'' \<mapsto> ex_user], db_transactions = []\<rparr>"

text \<open>
  The same round one call earlier, with its caller: four numbers of row 0 are called,
  the fifth, O61, is the next of the 75, and B2 comes after it.
\<close>

definition ex_deck :: "draw list" where
  "ex_deck = butlast ex_row0 @ (last ex_row0)\<lparr>d_called := False\<rparr> #
     filter (\<lambda>d. d_number d \<notin> set (map d_number ex_row0)) all_draws"

definition ex_calling :: engine where
  "ex_calling = ex_sweep
     \<lparr>activeGames := [''g1'' \<mapsto> ex_game\<lparr>pot := Finite 30, called_numbers := butlast ex_row0\<rparr>],
      db_games := [''g1'' \<mapsto> ex_game\<lparr>pot := Finite 30, called_numbers := butlast ex_row0\<rparr>],
      callers := [''g1'' \<mapsto> \<lparr>allNumbers = ex_deck, startTime = 0, numberIndex = 4\<rparr>]\<rparr>"

text \<open>
  A run of the engine: a user with balance 100, a round \<open>g1\<close>, the purchase of card 1,
  and the countdown's expiry, which starts the caller \<open>ex_caller\<close>.
\<close>

definition ex_users :: engine where
  "ex_users = init_engine\<lparr>db_users := (db_users init_engine)(''u1'' \<mapsto> ex_user\<lparr>balance := Finite 100\<rparr>)\<rparr>"

definition ex_created :: engine where
  "ex_created = snd (createNewGame ex_rt ex_users ''g1'' 0)"

definition ex_bought :: engine where
  "ex_bought = snd (purchaseCard ex_created ''g1'' ''u1'' 1 1000)"

definition ex_started :: engine where
  "ex_started = startGame ex_rt ex_bought ''g1'' 30000 (\<lambda>i. 0) ''g2''"

definition ex_caller :: caller where
  "ex_caller = \<lparr>allNumbers = shuffle_draws (\<lambda>i. 0) (length all_draws - 1) all_draws,
     startTime = 30000, numberIndex = 0\<rparr>"

text \<open>
  Another run, with \<^verbatim>\<open>BET_AMOUNT=0.1\<close> in the environment: the same user, a round, and
  the purchases of cards 1 to \<open>k\<close>.
\<close>

definition ex_dime_rt :: runtime where
  "ex_dime_rt = ex_rt\<lparr>env_settings := ex_settings\<lparr>bet_amount := fl (1 / 10)\<rparr>\<rparr>"

fun ex_buy :: "nat \<Rightarrow> engine" where
  "ex_buy 0 = snd (createNewGame ex_dime_rt ex_users ''g1'' 0)"
| "ex_buy (Suc k) = snd (purchaseCard (ex_buy k) ''g1'' ''u1'' (Suc k) 1000)"

text \<open>
  The sine of the number that a string of the form digits, \<^verbatim>\<open>e-\<close>, digits denotes: the
  values of \<^verbatim>\<open>Math.sin\<close> at the seeds of a round whose id is \<^verbatim>\<open>e-\<close>, taken exactly.
\<close>

definition digit_val :: "char \<Rightarrow> nat" where
  "digit_val c = length (takeWhile (\<lambda>d. d \<noteq> c) ''0123456789'')"

definition read_nat :: "string \<Rightarrow> nat" where
  "read_nat s = foldl (\<lambda>n c. 10 * n + digit_val c) 0 s"

definition sci :: "string \<Rightarrow> real" where
  "sci s = (let m = takeWhile is_digit s; e = drop (length m + 2) s
            in of_nat (read_nat m) / 10 ^ read_nat e)"

definition ex_sin :: "string \<Rightarrow> real" where
  "ex_sin s = sin (sci s)"

section \<open>Notions used to evaluate the examples\<close>

text \<open>
  What the examples below look at: of a round its status, winner, winning card, end
  time, the keys of its called numbers and its pot; of a state the round \<open>gid\<close> in both
  maps and in the table, the index of its caller, the user \<open>uid\<close>, the transactions and
  the number of cards of \<open>uid\<close> in the round.
\<close>

definition game_view ::
  "game \<Rightarrow> game_status \<times> user_id option \<times> nat option \<times> int option \<times> string list \<times> float64" where
  "game_view g =
     (status g, winner_id g, winning_card g, end_time g, map draw_key (called_numbers g), pot g)"

definition engine_view ::
  "engine \<Rightarrow> game_id \<Rightarrow> user_id \<Rightarrow>
     (game_status \<times> user_id option \<times> nat option \<times> int option \<times> string list \<times> float64) option \<times>
     (game_status \<times> user_id option \<times> nat option \<times> int option \<times> string list \<times> float64) option \<times>
     (game_status \<times> user_id option \<times> nat option \<times> int option \<times> string list \<times> float64) option \<times>
     nat option \<times> user option \<times> transaction list \<times> nat" where
  "engine_view st gid uid =
     (map_option game_view (waitingGames st gid), map_option game_view (activeGames st gid),
      map_option game_view (db_games st gid), map_option numberIndex (callers st gid),
      db_users st uid, db_transactions st, user_card_count st gid uid)"

text \<open>The balance that \<open>n\<close> executions of \<^verbatim>\<open>User.decrement('balance', { by: b })\<close> leave.\<close>

fun sub_times :: "float64 \<Rightarrow> float64 \<Rightarrow> nat \<Rightarrow> float64" where
  "sub_times x b 0 = x"
| "sub_times x b (Suc n) = dsub (sub_times x b n) b"

section \<open>Properties of the win predicate\<close>

lemma cell_at_grid5: "grid5 g \<Longrightarrow> r < 5 \<Longrightarrow> c < 5 \<Longrightarrow> cell_at g r c = Some (g ! r ! c)"
  by (auto simp: grid5_def cell_at_def list_all_length)

lemma line_complete_eq:
  "\<forall>(r, c) \<in> set ps. cell_at g r c = Some (g ! r ! c) \<Longrightarrow>
   line_complete g S ps = Inr (\<forall>(r, c) \<in> set ps. cell_ok S (g ! r ! c))"
  by (induction ps) (auto simp: cell_ok_def)

lemma any_line_eq:
  "\<forall>l \<in> set ls. \<forall>(r, c) \<in> set l. cell_at g r c = Some (g ! r ! c) \<Longrightarrow>
   any_line g S ls = Inr (\<exists>l \<in> set ls. \<forall>(r, c) \<in> set l. cell_ok S (g ! r ! c))"
  by (induction ls) (auto simp: line_complete_eq split: bool.splits)

lemma diagonals_eq:
  "\<forall>i \<in> set is. cell_at g i i = Some (g ! i ! i) \<and> cell_at g i (4 - i) = Some (g ! i ! (4 - i)) \<Longrightarrow>
   diagonals g S is (d1, d2) =
     Inr (d1 \<and> (\<forall>i \<in> set is. cell_ok S (g ! i ! i)), d2 \<and> (\<forall>i \<in> set is. cell_ok S (g ! i ! (4 - i))))"
  by (induction "is" arbitrary: d1 d2) (auto simp: cell_ok_def)

lemma rows_in_grid:
  "grid5 g \<Longrightarrow> \<forall>l \<in> set row_lines. \<forall>(r, c) \<in> set l. cell_at g r c = Some (g ! r ! c)"
  by (auto simp: row_lines_def cell_at_grid5)

lemma cols_in_grid:
  "grid5 g \<Longrightarrow> \<forall>l \<in> set col_lines. \<forall>(r, c) \<in> set l. cell_at g r c = Some (g ! r ! c)"
  by (auto simp: col_lines_def cell_at_grid5)

lemma diags_in_grid:
  "grid5 g \<Longrightarrow> \<forall>i \<in> set [0..<5]. cell_at g i i = Some (g ! i ! i) \<and> cell_at g i (4 - i) = Some (g ! i ! (4 - i))"
  by (auto simp: cell_at_grid5)

lemma rows_set: "(\<exists>l \<in> set row_lines. \<forall>(r, c) \<in> set l. P r c) \<longleftrightarrow> (\<exists>r<5. \<forall>c<5. P r c)"
  unfolding row_lines_def by force

lemma cols_set: "(\<exists>l \<in> set col_lines. \<forall>(r, c) \<in> set l. P r c) \<longleftrightarrow> (\<exists>c<5. \<forall>r<5. P r c)"
  unfolding col_lines_def by force

text \<open>
  C2. On a 5 by 5 grid \<^verbatim>\<open>checkCardForBingo\<close> returns true exactly when some row, some
  column, the main diagonal or the anti-diagonal has every cell free or with its
  letter+number key among the keys of the called numbers.
\<close>

theorem checkCardForBingo_iff:
  assumes "grid5 g"
  shows "checkCardForBingo g calledNumbers =
    Inr ((\<exists>r<5. \<forall>c<5. free (g ! r ! c) \<or> (\<exists>n \<in> set calledNumbers. draw_key n = cell_key (g ! r ! c)))
       \<or> (\<exists>c<5. \<forall>r<5. free (g ! r ! c) \<or> (\<exists>n \<in> set calledNumbers. draw_key n = cell_key (g ! r ! c)))
       \<or> (\<forall>i<5. free (g ! i ! i) \<or> (\<exists>n \<in> set calledNumbers. draw_key n = cell_key (g ! i ! i)))
       \<or> (\<forall>i<5. free (g ! i ! (4 - i)) \<or> (\<exists>n \<in> set calledNumbers. draw_key n = cell_key (g ! i ! (4 - i)))))"
proof -
  let ?S = "set (map draw_key calledNumbers)"
  have ok: "\<And>c. cell_ok ?S c \<longleftrightarrow> free c \<or> (\<exists>n \<in> set calledNumbers. draw_key n = cell_key c)"
    unfolding cell_ok_def by (simp add: image_iff) metis
  have R: "any_line g ?S row_lines = Inr (\<exists>r<5. \<forall>c<5. cell_ok ?S (g ! r ! c))"
    unfolding any_line_eq[OF rows_in_grid[OF assms]] rows_set ..
  have C: "any_line g ?S col_lines = Inr (\<exists>c<5. \<forall>r<5. cell_ok ?S (g ! r ! c))"
    unfolding any_line_eq[OF cols_in_grid[OF assms]] cols_set ..
  have D: "diagonals g ?S [0..<5] (True, True) =
      Inr ((\<forall>i<5. cell_ok ?S (g ! i ! i)), (\<forall>i<5. cell_ok ?S (g ! i ! (4 - i))))"
    unfolding diagonals_eq[OF diags_in_grid[OF assms]] by (simp add: Ball_def)
  show ?thesis
    unfolding checkCardForBingo_def Let_def R C D ok
    by (simp split: bool.splits) blast
qed

lemma ex_grid_row0:
  "\<forall>c<5. free (ex_grid ! 0 ! c) \<or> (\<exists>n \<in> set ex_row0. draw_key n = cell_key (ex_grid ! 0 ! c))"
proof (intro allI impI)
  fix c :: nat
  assume "c < 5"
  then consider "c = 0" | "c = 1" | "c = 2" | "c = 3" | "c = 4"
    by linarith
  then show "free (ex_grid ! 0 ! c) \<or> (\<exists>n \<in> set ex_row0. draw_key n = cell_key (ex_grid ! 0 ! c))"
    by cases
      (simp_all add: ex_grid_def ex_row0_def ex_draw_def draw_key_def cell_key_def
        show_nat.simps digit_char_def)
qed

text \<open>
  The three scenarios on \<open>ex_grid\<close>: row 0 called and nothing else; only the main
  diagonal called; five calls that complete no line.
\<close>

theorem checkCardForBingo_iff_witness:
  "grid5 ex_grid \<and> checkCardForBingo ex_grid ex_row0 = Inr True \<and>
   checkCardForBingo ex_grid ex_diag = Inr True \<and>
   checkCardForBingo ex_grid ex_none = Inr False"
proof -
  have g: "grid5 ex_grid"
    by code_simp
  have "\<exists>r<5. \<forall>c<5. free (ex_grid ! r ! c) \<or> (\<exists>n \<in> set ex_row0. draw_key n = cell_key (ex_grid ! r ! c))"
    using ex_grid_row0 by (intro exI[of _ 0]) simp
  then have "checkCardForBingo ex_grid ex_row0 = Inr True"
    using checkCardForBingo_iff[OF g, of ex_row0] by simp
  moreover have "checkCardForBingo ex_grid ex_diag = Inr True"
    by code_simp
  moreover have "checkCardForBingo ex_grid ex_none = Inr False"
    by code_simp
  ultimately show ?thesis
    using g by simp
qed

section \<open>Properties of settlement\<close>

lemma update_game_simps:
  "waitingGames (update_game gid f st) = waitingGames st"
  "activeGames (update_game gid f st) = activeGames st"
  "callers (update_game gid f st) = callers st"
  "db_cards (update_game gid f st) = db_cards st"
  "db_users (update_game gid f st) = db_users st"
  "db_transactions (update_game gid f st) = db_transactions st"
  "db_games (update_game gid f st) gid' =
     (if gid' = gid then map_option f (db_games st gid) else db_games st gid')"
  by (auto simp: update_game_def split: option.splits)

lemma update_user_simps:
  "waitingGames (update_user uid f st) = waitingGames st"
  "activeGames (update_user uid f st) = activeGames st"
  "callers (update_user uid f st) = callers st"
  "db_cards (update_user uid f st) = db_cards st"
  "db_games (update_user uid f st) = db_games st"
  "db_transactions (update_user uid f st) = db_transactions st"
  "db_users (update_user uid f st) uid' =
     (if uid' = uid then map_option f (db_users st uid) else db_users st uid')"
  by (auto simp: update_user_def split: option.splits)

lemma create_transaction_simps:
  "waitingGames (create_transaction t st) = waitingGames st"
  "activeGames (create_transaction t st) = activeGames st"
  "callers (create_transaction t st) = callers st"
  "db_cards (create_transaction t st) = db_cards st"
  "db_games (create_transaction t st) = db_games st"
  "db_users (create_transaction t st) = db_users st"
  "db_transactions (create_transaction t st) = db_transactions st @ [t]"
  by (auto simp: create_transaction_def)

text \<open>
  C9. \<^verbatim>\<open>endGame\<close> leaves users, transactions, cards and the waiting rounds as they are
  and changes no pot; a row of the \<^verbatim>\<open>Game\<close> table differs afterwards at most in its
  status and end time, and the ended round's row is Completed with the end time set and
  the round is no longer active. Nobody is refunded. A tick that finds the duration
  exceeded or every number called does exactly this (and clears its interval).
\<close>

theorem endGame_changes_only_status:
  "db_users (endGame st gameId now) = db_users st \<and>
   db_transactions (endGame st gameId now) = db_transactions st \<and>
   db_cards (endGame st gameId now) = db_cards st \<and>
   waitingGames (endGame st gameId now) = waitingGames st \<and>
   (\<forall>gid. gid \<noteq> gameId \<longrightarrow> activeGames (endGame st gameId now) gid = activeGames st gid) \<and>
   (\<forall>gid. map_option pot (db_games (endGame st gameId now) gid) = map_option pot (db_games st gid)) \<and>
   (\<forall>gid r. db_games st gid = Some r \<longrightarrow>
      (\<exists>r'. db_games (endGame st gameId now) gid = Some r' \<and>
            r' = r\<lparr>status := status r', end_time := end_time r'\<rparr>)) \<and>
   (\<forall>g r. activeGames st gameId = Some g \<and> db_games st gameId = Some r \<longrightarrow>
      db_games (endGame st gameId now) gameId = Some (r\<lparr>status := Completed, end_time := Some now\<rparr>) \<and>
      activeGames (endGame st gameId now) gameId = None) \<and>
   (\<forall>clr g. callers st gameId = Some clr \<and> activeGames st gameId = Some g \<and>
      (now - startTime clr > game_duration (settings g) * 1000 \<or>
       numberIndex clr \<ge> length (allNumbers clr)) \<longrightarrow>
      tick rt st gameId now = endGame (st\<lparr>callers := (callers st)(gameId := None)\<rparr>) gameId now \<and>
      db_users (tick rt st gameId now) = db_users st \<and>
      db_transactions (tick rt st gameId now) = db_transactions st)"
proof -
  have t: "\<forall>clr g. callers st gameId = Some clr \<and> activeGames st gameId = Some g \<and>
      (now - startTime clr > game_duration (settings g) * 1000 \<or>
       numberIndex clr \<ge> length (allNumbers clr)) \<longrightarrow>
      tick rt st gameId now = endGame (st\<lparr>callers := (callers st)(gameId := None)\<rparr>) gameId now \<and>
      db_users (tick rt st gameId now) = db_users st \<and>
      db_transactions (tick rt st gameId now) = db_transactions st"
    by (auto simp: tick_def endGame_def Let_def update_game_simps)
  show ?thesis
    by (intro conjI t)
      (auto simp: endGame_def Let_def update_game_simps option.map_comp comp_def
        split: option.splits)
qed

lemma Transaction_unbound: "Transaction_create t st = Inl ReferenceError"
  by (simp add: Transaction_create_def resolve_def bound_names_def)

lemma view_fields:
  assumes "engine_view st gid uid = (w, a, r, c, u, ts, n)"
  shows "map_option game_view (waitingGames st gid) = w"
    and "map_option game_view (activeGames st gid) = a"
    and "map_option game_view (db_games st gid) = r"
    and "map_option numberIndex (callers st gid) = c"
    and "db_users st uid = u" and "db_transactions st = ts"
    and "user_card_count st gid uid = n"
  using assms by (simp_all add: engine_view_def)

lemma game_view_fields:
  assumes "map_option game_view x = Some (s, w, c, e, ks, p)"
  shows "map_option status x = Some s" and "map_option winner_id x = Some w"
    and "map_option winning_card x = Some c" and "map_option end_time x = Some e"
    and "map_option (map draw_key \<circ> called_numbers) x = Some ks" and "map_option pot x = Some p"
  using assms by (cases x; simp add: game_view_def)+

text \<open>
  C1. \<^verbatim>\<open>declareWinner\<close> never records a transaction and never takes a round out of
  \<^verbatim>\<open>activeGames\<close>: \<^verbatim>\<open>Transaction.create\<close> throws before either. In \<open>ex_active\<close> (pot
  100, house fee 0.05, balance 7) the winner is credited 95 and the row becomes Completed
  with the winner fields, but no Win transaction exists afterwards and the round is still
  active, its in-memory object without a winner.
\<close>

theorem declareWinner_records_no_win:
  "db_transactions (declareWinner st gameId userId cardNumber now) = db_transactions st \<and>
   activeGames (declareWinner st gameId userId cardNumber now) = activeGames st \<and>
   pot ex_game = Finite 100 \<and> house_fee (settings ex_game) = fl (5 / 100) \<and>
   activeGames ex_active ''g1'' = Some ex_game \<and>
   db_users ex_active ''u1'' = Some ex_user \<and> balance ex_user = Finite 7 \<and>
   db_users (declareWinner ex_active ''g1'' ''u1'' 7 9000) ''u1'' =
     Some (ex_user\<lparr>balance := Finite 102, total_won := Finite 95, games_won := 1\<rparr>) \<and>
   map_option status (db_games (declareWinner ex_active ''g1'' ''u1'' 7 9000) ''g1'') = Some Completed \<and>
   map_option winner_id (db_games (declareWinner ex_active ''g1'' ''u1'' 7 9000) ''g1'') = Some (Some ''u1'') \<and>
   map_option winning_card (db_games (declareWinner ex_active ''g1'' ''u1'' 7 9000) ''g1'') = Some (Some 7) \<and>
   db_transactions (declareWinner ex_active ''g1'' ''u1'' 7 9000) = [] \<and>
   map_option status (activeGames (declareWinner ex_active ''g1'' ''u1'' 7 9000) ''g1'') = Some Active \<and>
   map_option winner_id (activeGames (declareWinner ex_active ''g1'' ''u1'' 7 9000) ''g1'') = Some None"
proof -
  have f: "db_transactions (declareWinner st gameId userId cardNumber now) = db_transactions st \<and>
      activeGames (declareWinner st gameId userId cardNumber now) = activeGames st"
    by (simp add: declareWinner_def Let_def Transaction_unbound update_game_simps update_user_simps
        split: option.splits)
  have v: "engine_view (declareWinner ex_active ''g1'' ''u1'' 7 9000) ''g1'' ''u1'' =
      (None, Some (Active, None, None, None, [], Finite 100),
       Some (Completed, Some ''u1'', Some 7, Some 9000, [], Finite 100), None,
       Some (ex_user\<lparr>balance := Finite 102, total_won := Finite 95, games_won := 1\<rparr>), [], 0)"
    by code_simp
  note e = view_fields[OF v]
  show ?thesis
    using f e(5,6) game_view_fields[OF e(2)] game_view_fields[OF e(3)]
    by (simp add: ex_game_def ex_settings_def ex_active_def ex_user_def)
qed

section \<open>Properties of the win sweep\<close>

lemma first_bingo_split:
  "first_bingo cn (pre @ c # post) =
     (case first_bingo cn pre of
        Inl e \<Rightarrow> Inl e
      | Inr (Some w) \<Rightarrow> Inr (Some w)
      | Inr None \<Rightarrow> first_bingo cn (c # post))"
  by (induction pre) (auto split: sum.splits bool.splits)

lemma first_bingo_none:
  "\<forall>p \<in> set pre. checkCardForBingo (numbers p) cn = Inr False \<Longrightarrow> first_bingo cn pre = Inr None"
  by (induction pre) auto

text \<open>
  C3 (as amended). The sweep goes through the purchased cards in the order the database
  returns them: the first card in that order that satisfies the win predicate is the
  one \<^verbatim>\<open>declareWinner\<close> is called for, whatever its card number.
\<close>

theorem sweep_first_retrieved:
  assumes "activeGames st gameId = Some game"
    and "db_order rt (purchased_cards st gameId) = pre @ c # post"
    and "\<forall>p \<in> set pre. checkCardForBingo (numbers p) (called_numbers game) = Inr False"
    and "checkCardForBingo (numbers c) (called_numbers game) = Inr True"
    and "user_id c = Some uid"
  shows "checkForWinners rt st gameId now = declareWinner st gameId uid (card_number c) now"
  using assms
  by (simp add: checkForWinners_def first_bingo_split first_bingo_none)

theorem sweep_first_retrieved_witness:
  "activeGames ex_sweep ''g1'' = Some (ex_game\<lparr>pot := Finite 30, called_numbers := ex_row0\<rparr>) \<and>
   db_order ex_rt (purchased_cards ex_sweep ''g1'') =
     [ex_other_card 2 (Some ''u1'')] @ ex_card 3 (Some ''u2'') # [ex_card 7 (Some ''u1'')] \<and>
   checkCardForBingo (numbers (ex_other_card 2 (Some ''u1''))) ex_row0 = Inr False \<and>
   checkCardForBingo (numbers (ex_card 3 (Some ''u2''))) ex_row0 = Inr True \<and>
   user_id (ex_card 3 (Some ''u2'')) = Some ''u2'' \<and>
   checkForWinners ex_rt ex_sweep ''g1'' 9000 = declareWinner ex_sweep ''g1'' ''u2'' 3 9000"
proof -
  let ?g = "ex_game\<lparr>pot := Finite 30, called_numbers := ex_row0\<rparr>"
  have a: "activeGames ex_sweep ''g1'' = Some ?g"
    by (simp add: ex_sweep_def)
  have b: "db_order ex_rt (purchased_cards ex_sweep ''g1'') =
      [ex_other_card 2 (Some ''u1'')] @ ex_card 3 (Some ''u2'') # [ex_card 7 (Some ''u1'')]"
    by (simp add: ex_rt_def ex_sweep_def purchased_cards_def purchased_def ex_card_def
        ex_other_card_def)
  have l: "checkCardForBingo (numbers (ex_other_card 2 (Some ''u1''))) ex_row0 = Inr False"
    by code_simp
  have c: "checkCardForBingo (numbers (ex_card 3 (Some ''u2''))) ex_row0 = Inr True"
    by code_simp
  have d: "user_id (ex_card 3 (Some ''u2'')) = Some ''u2''"
    by (simp add: ex_card_def)
  have e: "\<forall>p \<in> set [ex_other_card 2 (Some ''u1'')].
      checkCardForBingo (numbers p) (called_numbers ?g) = Inr False"
    using l by simp
  have c': "checkCardForBingo (numbers (ex_card 3 (Some ''u2''))) (called_numbers ?g) = Inr True"
    using c by simp
  show ?thesis
    using sweep_first_retrieved[OF a b e c' d, of 9000] a b l c d
    by (simp add: ex_card_def)
qed

text \<open>
  Cards 3 and 7 are purchased and both first satisfy the predicate on the call that
  completes row 0. When the database returns card 7 before card 3, card 7 wins.
\<close>

theorem sweep_lowest_card_counterexample:
  "map card_number (purchased_cards ex_sweep ''g1'') = [2, 3, 7] \<and>
   checkCardForBingo (numbers (ex_card 3 (Some ''u2''))) ex_row0 = Inr True \<and>
   checkCardForBingo (numbers (ex_card 7 (Some ''u1''))) ex_row0 = Inr True \<and>
   checkCardForBingo (numbers (ex_card 3 (Some ''u2''))) (butlast ex_row0) = Inr False \<and>
   checkCardForBingo (numbers (ex_card 7 (Some ''u1''))) (butlast ex_row0) = Inr False \<and>
   map card_number (db_order (ex_rt\<lparr>db_order := rev\<rparr>) (purchased_cards ex_sweep ''g1'')) = [7, 3, 2] \<and>
   map_option winning_card
     (db_games (checkForWinners (ex_rt\<lparr>db_order := rev\<rparr>) ex_sweep ''g1'' 9000) ''g1'') = Some (Some 7) \<and>
   map_option winner_id
     (db_games (checkForWinners (ex_rt\<lparr>db_order := rev\<rparr>) ex_sweep ''g1'' 9000) ''g1'') = Some (Some ''u1'')"
  by code_simp

section \<open>Properties of the purchase\<close>

lemma purchaseCard_validation_frame:
  "fst (purchaseCard st gameId userId cardNumber now) = Inl e \<Longrightarrow> e \<noteq> ReferenceError \<Longrightarrow>
   snd (purchaseCard st gameId userId cardNumber now) = st"
  by (auto simp: purchaseCard_def Let_def Transaction_unbound split: option.splits if_splits)

lemma purchaseCard_never_returns:
  "fst (purchaseCard st gameId userId cardNumber now) \<noteq> Inr c"
  by (auto simp: purchaseCard_def Let_def Transaction_unbound split: option.splits if_splits)

text \<open>
  C4. \<^verbatim>\<open>purchaseCard\<close> never counts the cards the participant holds. In \<open>ex_waiting\<close>
  the cap is 5 and \<open>u1\<close> holds 5 cards: \<^verbatim>\<open>joinGame\<close> refuses, while \<^verbatim>\<open>purchaseCard\<close>
  passes its checks, debits the bet, gives card 6 to \<open>u1\<close> and raises the pot; then
  \<^verbatim>\<open>Transaction.create\<close> throws, so the call fails with a ReferenceError, no Bet is
  recorded and \<^verbatim>\<open>games_played\<close> stays, while the debit, the card and the pot remain.
\<close>

theorem purchaseCard_ignores_cap:
  "max_cards_per_player (settings (the (waitingGames ex_waiting ''g1''))) = 5 \<and>
   user_card_count ex_waiting ''g1'' ''u1'' = 5 \<and>
   joinGame ex_waiting ''g1'' ''u1'' = Inl MaxCardsReached \<and>
   map_option balance (db_users ex_waiting ''u1'') = Some (Finite 100) \<and>
   map_option pot (waitingGames ex_waiting ''g1'') = Some (Finite 50) \<and>
   fst (purchaseCard ex_waiting ''g1'' ''u1'' 6 1000) = Inl ReferenceError \<and>
   user_card_count (snd (purchaseCard ex_waiting ''g1'' ''u1'' 6 1000)) ''g1'' ''u1'' = 6 \<and>
   db_users (snd (purchaseCard ex_waiting ''g1'' ''u1'' 6 1000)) ''u1'' =
     Some (ex_user\<lparr>balance := Finite 90\<rparr>) \<and>
   map_option pot (waitingGames (snd (purchaseCard ex_waiting ''g1'' ''u1'' 6 1000)) ''g1'') = Some (Finite 60) \<and>
   map_option pot (db_games (snd (purchaseCard ex_waiting ''g1'' ''u1'' 6 1000)) ''g1'') = Some (Finite 60) \<and>
   db_transactions (snd (purchaseCard ex_waiting ''g1'' ''u1'' 6 1000)) = []"
proof -
  have a: "max_cards_per_player (settings (the (waitingGames ex_waiting ''g1''))) = 5 \<and>
      user_card_count ex_waiting ''g1'' ''u1'' = 5 \<and>
      joinGame ex_waiting ''g1'' ''u1'' = Inl MaxCardsReached \<and>
      map_option balance (db_users ex_waiting ''u1'') = Some (Finite 100) \<and>
      map_option pot (waitingGames ex_waiting ''g1'') = Some (Finite 50)"
    by code_simp
  have b: "fst (purchaseCard ex_waiting ''g1'' ''u1'' 6 1000) = Inl ReferenceError"
    by code_simp
  have v: "engine_view (snd (purchaseCard ex_waiting ''g1'' ''u1'' 6 1000)) ''g1'' ''u1'' =
      (Some (Waiting, None, None, None, [], Finite 60), None,
       Some (Waiting, None, None, None, [], Finite 60), None,
       Some (ex_user\<lparr>balance := Finite 90\<rparr>), [], 6)"
    by code_simp
  note e = view_fields[OF v]
  show ?thesis
    using a b e(5,6,7) game_view_fields(6)[OF e(1)] game_view_fields(6)[OF e(3)]
    by simp
qed

section \<open>Properties of the caller\<close>

text \<open>
  C8. In \<open>ex_calling\<close> four numbers are called and the caller's next number, O61,
  completes row 0 of cards 3 and 7. The tick appends it and the sweep declares card 3:
  the row becomes Completed with its winner. \<^verbatim>\<open>declareWinner\<close> stops at
  \<^verbatim>\<open>Transaction.create\<close>, so the round stays in \<^verbatim>\<open>activeGames\<close> and the interval is not
  cleared: the next tick appends B2 to the called numbers of the completed round and
  pays the winner a second time.
\<close>

theorem tick_draws_after_win:
  "map_option (map draw_key \<circ> called_numbers) (db_games ex_calling ''g1'') =
     Some [''B1'', ''I16'', ''N31'', ''G46''] \<and>
   map_option balance (db_users ex_calling ''u2'') = Some (Finite 7) \<and>
   map_option status (db_games (tick ex_rt ex_calling ''g1'' 9000) ''g1'') = Some Completed \<and>
   map_option winner_id (db_games (tick ex_rt ex_calling ''g1'' 9000) ''g1'') = Some (Some ''u2'') \<and>
   map_option winning_card (db_games (tick ex_rt ex_calling ''g1'' 9000) ''g1'') = Some (Some 3) \<and>
   map_option (map draw_key \<circ> called_numbers) (db_games (tick ex_rt ex_calling ''g1'' 9000) ''g1'') =
     Some [''B1'', ''I16'', ''N31'', ''G46'', ''O61''] \<and>
   map_option balance (db_users (tick ex_rt ex_calling ''g1'' 9000) ''u2'') = Some (Finite (71 / 2)) \<and>
   map_option status (activeGames (tick ex_rt ex_calling ''g1'' 9000) ''g1'') = Some Active \<and>
   map_option winner_id (activeGames (tick ex_rt ex_calling ''g1'' 9000) ''g1'') = Some None \<and>
   map_option numberIndex (callers (tick ex_rt ex_calling ''g1'' 9000) ''g1'') = Some 5 \<and>
   map_option status (db_games (tick ex_rt (tick ex_rt ex_calling ''g1'' 9000) ''g1'' 12000) ''g1'') =
     Some Completed \<and>
   map_option (map draw_key \<circ> called_numbers)
     (db_games (tick ex_rt (tick ex_rt ex_calling ''g1'' 9000) ''g1'' 12000) ''g1'') =
     Some [''B1'', ''I16'', ''N31'', ''G46'', ''O61'', ''B2''] \<and>
   map_option balance (db_users (tick ex_rt (tick ex_rt ex_calling ''g1'' 9000) ''g1'' 12000) ''u2'') =
     Some (Finite 64) \<and>
   map_option games_won (db_users (tick ex_rt (tick ex_rt ex_calling ''g1'' 9000) ''g1'' 12000) ''u2'') =
     Some 2 \<and>
   db_transactions (tick ex_rt (tick ex_rt ex_calling ''g1'' 9000) ''g1'' 12000) = []"
proof -
  have v0: "engine_view ex_calling ''g1'' ''u2'' =
      (None, Some (Active, None, None, None, [''B1'', ''I16'', ''N31'', ''G46''], Finite 30),
       Some (Active, None, None, None, [''B1'', ''I16'', ''N31'', ''G46''], Finite 30), Some 4,
       Some ex_user, [], 1)"
    by code_simp
  have v1: "engine_view (tick ex_rt ex_calling ''g1'' 9000) ''g1'' ''u2'' =
      (None, Some (Active, None, None, None, [''B1'', ''I16'', ''N31'', ''G46'', ''O61''], Finite 30),
       Some (Completed, Some ''u2'', Some 3, Some 9000,
             [''B1'', ''I16'', ''N31'', ''G46'', ''O61''], Finite 30), Some 5,
       Some (ex_user\<lparr>balance := Finite (71 / 2), total_won := Finite (57 / 2), games_won := 1\<rparr>),
       [], 1)"
    by code_simp
  have v2: "engine_view (tick ex_rt (tick ex_rt ex_calling ''g1'' 9000) ''g1'' 12000) ''g1'' ''u2'' =
      (None,
       Some (Active, None, None, None, [''B1'', ''I16'', ''N31'', ''G46'', ''O61'', ''B2''], Finite 30),
       Some (Completed, Some ''u2'', Some 3, Some 12000,
             [''B1'', ''I16'', ''N31'', ''G46'', ''O61'', ''B2''], Finite 30), Some 6,
       Some (ex_user\<lparr>balance := Finite 64, total_won := Finite 57, games_won := 2\<rparr>), [], 1)"
    by code_simp
  note e0 = view_fields[OF v0]
  note e1 = view_fields[OF v1]
  note e2 = view_fields[OF v2]
  show ?thesis
    using game_view_fields[OF e0(3)] e0(5) game_view_fields[OF e1(3)] game_view_fields[OF e1(2)]
      e1(4,5) game_view_fields[OF e2(3)] e2(5,6)
    by (simp add: ex_user_def)
qed

section \<open>Properties of card generation\<close>

subsection \<open>Which seeds are numeric\<close>

lemma lt10_cases:
  "(d::nat) < 10 \<Longrightarrow> d = 0 \<or> d = 1 \<or> d = 2 \<or> d = 3 \<or> d = 4 \<or> d = 5 \<or> d = 6 \<or> d = 7 \<or> d = 8 \<or> d = 9"
  by arith

lemma is_digit_digit_char: "d < 10 \<Longrightarrow> is_digit (digit_char d)"
  using lt10_cases[of d] by (auto simp: is_digit_def digit_char_def)

lemma digit_char_nonzero: "0 < d \<Longrightarrow> d < 10 \<Longrightarrow> digit_char d \<noteq> CHR ''0''"
  using lt10_cases[of d] by (auto simp: digit_char_def)

lemma is_digit_not_special:
  "is_digit c \<Longrightarrow> c \<noteq> CHR ''.'' \<and> c \<noteq> CHR ''e'' \<and> c \<noteq> CHR ''E''"
  by (auto simp: is_digit_def)

lemma nstep_digit: "decimal_state s \<Longrightarrow> is_digit c \<Longrightarrow> nstep s c = after_digits s"
  by (cases s) (simp_all add: decimal_state_def)

lemma after_digits_idem: "after_digits (after_digits s) = after_digits s"
  by (cases s) auto

lemma decimal_after: "decimal_state (after_digits s)"
  by (cases s) (auto simp: decimal_state_def)

lemma decimal_nstep: "decimal_state s \<Longrightarrow> decimal_state (nstep s c)"
  by (cases s) (simp_all add: decimal_state_def)

lemma decimal_foldl: "decimal_state s \<Longrightarrow> decimal_state (foldl nstep s cs)"
  by (induction cs arbitrary: s) (auto simp: decimal_nstep)

lemma foldl_show_nat: "decimal_state s \<Longrightarrow> foldl nstep s (show_nat n) = after_digits s"
proof (induction n rule: show_nat.induct)
  case (1 n)
  show ?case
  proof (cases "n < 10")
    case True
    then show ?thesis
      using 1(2) by (subst show_nat.simps) (simp add: nstep_digit is_digit_digit_char)
  next
    case False
    have "is_digit (digit_char (n mod 10))"
      by (simp add: is_digit_digit_char)
    then show ?thesis
      using False 1 by (subst show_nat.simps) (simp add: nstep_digit decimal_after after_digits_idem)
  qed
qed

lemma start_show_nat: "1 \<le> n \<Longrightarrow> foldl nstep NStart (show_nat n) = NInt"
proof (induction n rule: show_nat.induct)
  case (1 n)
  show ?case
  proof (cases "n < 10")
    case True
    then show ?thesis
      using 1(2) by (subst show_nat.simps) (simp add: is_digit_digit_char digit_char_nonzero)
  next
    case False
    then have "1 \<le> n div 10" by simp
    moreover have "is_digit (digit_char (n mod 10))"
      by (simp add: is_digit_digit_char)
    ultimately show ?thesis
      using False 1(1) by (subst show_nat.simps) (simp add: is_digit_not_special)
  qed
qed

lemma numeric_seed:
  assumes "1 \<le> c"
  shows "numeric_string ((show_nat c @ gameId) @ show_nat idx) \<longleftrightarrow> foldl nstep NInt gameId \<noteq> NDead"
proof -
  let ?s = "foldl nstep NInt gameId"
  have d: "decimal_state ?s"
    by (rule decimal_foldl) (simp add: decimal_state_def)
  have "foldl nstep NStart ((show_nat c @ gameId) @ show_nat idx) = after_digits ?s"
    using assms d by (simp add: start_show_nat foldl_show_nat)
  moreover have "naccept (after_digits ?s) \<longleftrightarrow> ?s \<noteq> NDead"
    using d by (auto simp: decimal_state_def naccept_def)
  ultimately show ?thesis
    by (simp add: numeric_string_def)
qed

subsection \<open>The shuffle\<close>

lemma len5: "length xs = 5 \<Longrightarrow> \<exists>a b c d e. xs = [a, b, c, d, e]"
  by (auto simp: length_Suc_conv numeral_eq_Suc)

lemma arr_put_length: "length (elems a) \<le> length (elems (arr_put a j v))"
  by (auto simp: arr_put_def split: option.splits)

lemma arr_swap_length: "length (elems a) \<le> length (elems (arr_swap a i j))"
  unfolding arr_swap_def Let_def
  by (rule order_trans[OF arr_put_length arr_put_length])

lemma shuffle_from_length: "length (elems a) \<le> length (elems (shuffle_from jf k a))"
proof (induction k arbitrary: a)
  case 0
  then show ?case by simp
next
  case (Suc k)
  show ?case
    using order_trans[OF arr_swap_length Suc.IH] by simp
qed

lemma selectedNumbers_length: "mn + 4 \<le> mx \<Longrightarrow> length (selectedNumbers jf mn mx) = 5"
proof -
  assume a: "mn + 4 \<le> mx"
  let ?a = "\<lparr>elems = map Some [mn..<Suc mx], nan_prop = None\<rparr>"
  have "length (elems ?a) \<le> length (elems (shuffle_from jf (length (elems ?a) - 1) ?a))"
    by (rule shuffle_from_length)
  then have "5 \<le> length (elems (shuffle_from jf (length (elems ?a) - 1) ?a))"
    using a by simp
  then show ?thesis
    by (simp add: selectedNumbers_def Let_def)
qed

lemma arr_swap_in_range:
  assumes "i < length (elems a)" "0 \<le> j" "nat j \<le> i"
  shows "arr_swap a i (Some j) = a\<lparr>elems := (elems a)[i := elems a ! nat j, nat j := elems a ! i]\<rparr>"
  using assms by (auto simp: arr_swap_def arr_get_def arr_put_def Let_def)

lemma shuffle_from_perm:
  assumes "k < length (elems a)"
    and "\<forall>i. 1 \<le> i \<and> i \<le> k \<longrightarrow> (\<exists>j. jf i = Some j \<and> 0 \<le> j \<and> nat j \<le> i)"
  shows "mset (elems (shuffle_from jf k a)) = mset (elems a)"
  using assms
proof (induction k arbitrary: a)
  case 0
  then show ?case by simp
next
  case (Suc k)
  from Suc.prems(2) obtain j where j: "jf (Suc k) = Some j" "0 \<le> j" "nat j \<le> Suc k"
    by (metis le_refl le_add1 plus_1_eq_Suc)
  let ?a = "arr_swap a (Suc k) (jf (Suc k))"
  have eq: "?a = a\<lparr>elems := (elems a)[Suc k := elems a ! nat j, nat j := elems a ! Suc k]\<rparr>"
    using j Suc.prems(1) by (simp add: arr_swap_in_range)
  have m: "mset (elems ?a) = mset (elems a)"
    unfolding eq using j Suc.prems(1) by (simp add: mset_swap)
  have l: "k < length (elems ?a)"
    unfolding eq using Suc.prems(1) by simp
  have "mset (elems (shuffle_from jf k ?a)) = mset (elems ?a)"
    by (rule Suc.IH[OF l]) (use Suc.prems(2) in auto)
  then show ?case
    using m by simp
qed

lemma selectedNumbers_perm:
  assumes "\<forall>i. 1 \<le> i \<and> i \<le> mx - mn \<longrightarrow> (\<exists>j. jf i = Some j \<and> 0 \<le> j \<and> nat j \<le> i)"
    and "mn \<le> mx"
  shows "distinct (selectedNumbers jf mn mx) \<and>
         set (selectedNumbers jf mn mx) \<subseteq> Some ` {mn..mx}"
proof -
  let ?a = "\<lparr>elems = map Some [mn..<Suc mx], nan_prop = None\<rparr>"
  let ?r = "elems (shuffle_from jf (length (elems ?a) - 1) ?a)"
  have k: "length (elems ?a) - 1 = mx - mn"
    using assms(2) by simp
  have "mset ?r = mset (elems ?a)"
    unfolding k by (rule shuffle_from_perm) (use assms in auto)
  then have m: "mset ?r = mset (map Some [mn..<Suc mx])"
    by simp
  have d: "distinct ?r"
    using m by (metis distinct_map distinct_upt inj_on_def mset_eq_imp_distinct_iff option.inject)
  have s: "set ?r = Some ` {mn..mx}"
    using mset_eq_setD[OF m] by auto
  show ?thesis
    unfolding selectedNumbers_def Let_def
    using d s by (metis distinct_take set_take_subset)
qed

lemma pick_dead:
  assumes "1 \<le> c" "non_numeric_id gameId"
  shows "pick msin (show_nat c @ gameId) colIndex i = None"
  using numeric_seed[OF assms(1), of gameId "colIndex * 100 + i"] assms(2)
  by (simp add: pick_def seededRandom_def non_numeric_id_def)

lemma pick_numeric:
  assumes "1 \<le> c" "\<not> non_numeric_id gameId"
  shows "\<exists>j. pick msin (show_nat c @ gameId) colIndex i = Some j \<and> 0 \<le> j \<and> nat j \<le> i"
proof -
  define x where "x = msin ((show_nat c @ gameId) @ show_nat (colIndex * 100 + i)) * 10000"
  define r where "r = x - of_int \<lfloor>x\<rfloor>"
  have r: "0 \<le> r" "r < 1"
    unfolding r_def by linarith+
  have p: "pick msin (show_nat c @ gameId) colIndex i = Some \<lfloor>r * of_nat (i + 1)\<rfloor>"
    using numeric_seed[OF assms(1), of gameId "colIndex * 100 + i"] assms(2)
    by (simp add: pick_def seededRandom_def non_numeric_id_def Let_def x_def r_def)
  have "0 \<le> r * of_nat (i + 1)"
    using r by simp
  then have lo: "0 \<le> \<lfloor>r * of_nat (i + 1)\<rfloor>"
    by simp
  have "r * of_nat (i + 1) < of_nat (i + 1)"
    using r by simp
  then have "\<lfloor>r * of_nat (i + 1)\<rfloor> < int (i + 1)"
    by (simp add: floor_less_iff)
  then have hi: "nat \<lfloor>r * of_nat (i + 1)\<rfloor> \<le> i"
    using lo by linarith
  show ?thesis
    using p lo hi by blast
qed

subsection \<open>The grid\<close>

lemma sel_length: "k < 5 \<Longrightarrow> length (sel msin c g k) = 5"
proof -
  assume "k < 5"
  then have "k = 0 \<or> k = 1 \<or> k = 2 \<or> k = 3 \<or> k = 4" by arith
  then show ?thesis
    unfolding sel_def by (auto simp: ranges_def selectedNumbers_length)
qed

lemma upt5: "[0..<5] = [0, 1, 2, 3, 4]"
  by (simp add: upt_rec)

lemma assemble:
  assumes "length s0 = 5" "length s1 = 5" "length s2 = 5" "length s3 = 5" "length s4 = 5"
  shows "mark_center
           (place_column (place_column (place_column (place_column (place_column [] 0 ''B'' s0)
              1 ''I'' s1) 2 ''N'' s2) 3 ''G'' s3) 4 ''O'' s4) =
         Inr (grid_of (\<lambda>k. [s0, s1, s2, s3, s4] ! k))"
proof -
  obtain a0 a1 a2 a3 a4 where s0: "s0 = [a0, a1, a2, a3, a4]" using len5[OF assms(1)] by blast
  obtain b0 b1 b2 b3 b4 where s1: "s1 = [b0, b1, b2, b3, b4]" using len5[OF assms(2)] by blast
  obtain c0 c1 c2 c3 c4 where s2: "s2 = [c0, c1, c2, c3, c4]" using len5[OF assms(3)] by blast
  obtain d0 d1 d2 d3 d4 where s3: "s3 = [d0, d1, d2, d3, d4]" using len5[OF assms(4)] by blast
  obtain e0 e1 e2 e3 e4 where s4: "s4 = [e0, e1, e2, e3, e4]" using len5[OF assms(5)] by blast
  show ?thesis
    unfolding s0 s1 s2 s3 s4
    by (simp add: place_column_def set_cell_def js_store_def mark_center_def cell_at_def
        grid_of_def ranges_def upt5 Let_def)
qed

lemma zip_ranges:
  "zip [0..<length ranges] ranges =
     [(0, ''B'', 1, 15), (1, ''I'', 16, 30), (2, ''N'', 31, 45), (3, ''G'', 46, 60), (4, ''O'', 61, 75)]"
  by (simp add: ranges_def upt5)

lemma sel_cols:
  "sel msin c g 0 = selectedNumbers (pick msin (show_nat c @ g) 0) 1 15"
  "sel msin c g 1 = selectedNumbers (pick msin (show_nat c @ g) 1) 16 30"
  "sel msin c g 2 = selectedNumbers (pick msin (show_nat c @ g) 2) 31 45"
  "sel msin c g 3 = selectedNumbers (pick msin (show_nat c @ g) 3) 46 60"
  "sel msin c g 4 = selectedNumbers (pick msin (show_nat c @ g) 4) 61 75"
  by (simp_all add: sel_def ranges_def)

lemma generateCardNumbers_grid:
  "generateCardNumbers msin c g = Inr (grid_of (sel msin c g))"
proof -
  let ?s = "sel msin c g"
  have e: "grid_of (\<lambda>k. [?s 0, ?s 1, ?s 2, ?s 3, ?s 4] ! k) = grid_of ?s"
    by (simp add: grid_of_def upt5)
  have L: "generateCardNumbers msin c g =
      mark_center
        (place_column (place_column (place_column (place_column (place_column [] 0 ''B'' (?s 0))
           1 ''I'' (?s 1)) 2 ''N'' (?s 2)) 3 ''G'' (?s 3)) 4 ''O'' (?s 4))"
    by (simp only: generateCardNumbers_def Let_def zip_ranges foldl.simps prod.case sel_cols)
  show ?thesis
    unfolding L e[symmetric]
    by (rule assemble) (simp_all add: sel_length)
qed

lemma nan_columns:
  "selectedNumbers (\<lambda>i. None) 1 15 = [Some 1, Some 3, Some 4, Some 5, Some 6]"
  "selectedNumbers (\<lambda>i. None) 16 30 = [Some 16, Some 18, Some 19, Some 20, Some 21]"
  "selectedNumbers (\<lambda>i. None) 31 45 = [Some 31, Some 33, Some 34, Some 35, Some 36]"
  "selectedNumbers (\<lambda>i. None) 46 60 = [Some 46, Some 48, Some 49, Some 50, Some 51]"
  "selectedNumbers (\<lambda>i. None) 61 75 = [Some 61, Some 63, Some 64, Some 65, Some 66]"
  by code_simp+

lemma nan_column0: "selectedNumbers (\<lambda>i. None) (Suc 0) 15 = [Some 1, Some 3, Some 4, Some 5, Some 6]"
  by code_simp

lemma range_bounds:
  "k < 5 \<Longrightarrow> fst (snd (ranges ! k)) = 15 * k + 1 \<and> snd (snd (ranges ! k)) = 15 * k + 15"
proof -
  assume "k < 5"
  then have "k = 0 \<or> k = 1 \<or> k = 2 \<or> k = 3 \<or> k = 4" by arith
  then show ?thesis by (auto simp: ranges_def)
qed

lemma sel_dead:
  assumes "1 \<le> c" "non_numeric_id g"
  shows "sel msin c g k = selectedNumbers (\<lambda>i. None) (fst (snd (ranges ! k))) (snd (snd (ranges ! k)))"
proof -
  have "pick msin (show_nat c @ g) k = (\<lambda>i. None)"
    using pick_dead[OF assms] by (intro ext) simp
  then show ?thesis by (simp add: sel_def)
qed

lemma sel_ok:
  assumes "1 \<le> c" "k < 5"
  shows "distinct (sel msin c g k) \<and> set (sel msin c g k) \<subseteq> Some ` {15 * k + 1..15 * k + 15}"
proof (cases "non_numeric_id g")
  case True
  from assms(2) have "k = 0 \<or> k = 1 \<or> k = 2 \<or> k = 3 \<or> k = 4" by arith
  then show ?thesis
    unfolding sel_dead[OF assms(1) True] by (auto simp: ranges_def nan_columns nan_column0)
next
  case False
  have "distinct (selectedNumbers (pick msin (show_nat c @ g) k) (15 * k + 1) (15 * k + 15)) \<and>
        set (selectedNumbers (pick msin (show_nat c @ g) k) (15 * k + 1) (15 * k + 15))
          \<subseteq> Some ` {15 * k + 1..15 * k + 15}"
    by (rule selectedNumbers_perm) (use pick_numeric[OF assms(1) False] in auto)
  then show ?thesis
    using range_bounds[OF assms(2)] by (simp add: sel_def)
qed

lemma grid_of_nth:
  "r < 5 \<Longrightarrow> k < 5 \<Longrightarrow> grid_of s ! r ! k =
     \<lparr>letter = fst (ranges ! k), number = s k ! r, called = (r = 2 \<and> k = 2), row = r, col = k,
      free = (r = 2 \<and> k = 2)\<rparr>"
  by (simp add: grid_of_def)

lemma grid5_grid_of: "grid5 (grid_of s)"
  by (simp add: grid5_def grid_of_def list_all_iff)

lemma pick_cong:
  assumes "\<forall>idx. msin' (seed @ show_nat idx) = msin (seed @ show_nat idx)"
  shows "pick msin' seed = pick msin seed"
  using assms by (intro ext) (simp add: pick_def seededRandom_def Let_def)

lemma generateCardNumbers_cong:
  assumes "\<forall>idx. msin' ((show_nat c @ g) @ show_nat idx) = msin ((show_nat c @ g) @ show_nat idx)"
  shows "generateCardNumbers msin' c g = generateCardNumbers msin c g"
  unfolding generateCardNumbers_def Let_def pick_cong[OF assms] ..

text \<open>
  C5. For every card number from 1 and every round id, \<^verbatim>\<open>generateCardNumbers\<close> returns a
  grid: five rows of five cells, free exactly at the centre, the cells of column \<open>k\<close>
  carrying that column's letter and a number within its range, and no number twice in the
  card. The grid is determined by the card number, the round id and the values of
  \<^verbatim>\<open>Math.sin\<close> at the seeds: a call that sees the same values returns the same grid.
\<close>

theorem generateCardNumbers_wellformed:
  assumes "1 \<le> cardNumber"
  shows "(\<exists>g. generateCardNumbers msin cardNumber gameId = Inr g \<and> grid5 g \<and>
     (\<forall>r<5. \<forall>k<5. free (g ! r ! k) \<longleftrightarrow> r = 2 \<and> k = 2) \<and>
     (\<forall>r<5. \<forall>k<5. letter (g ! r ! k) = fst (ranges ! k) \<and>
        (\<exists>n. number (g ! r ! k) = Some n \<and> fst (snd (ranges ! k)) \<le> n \<and> n \<le> snd (snd (ranges ! k)))) \<and>
     (\<forall>r<5. \<forall>k<5. \<forall>r'<5. \<forall>k'<5. number (g ! r ! k) = number (g ! r' ! k') \<longrightarrow> r = r' \<and> k = k')) \<and>
    (\<forall>msin'. (\<forall>idx. msin' ((show_nat cardNumber @ gameId) @ show_nat idx) =
                      msin ((show_nat cardNumber @ gameId) @ show_nat idx)) \<longrightarrow>
       generateCardNumbers msin' cardNumber gameId = generateCardNumbers msin cardNumber gameId)"
proof -
  let ?s = "sel msin cardNumber gameId"
  have inr: "\<And>r k. r < 5 \<Longrightarrow> k < 5 \<Longrightarrow> \<exists>n. ?s k ! r = Some n \<and> 15 * k + 1 \<le> n \<and> n \<le> 15 * k + 15"
  proof -
    fix r k :: nat
    assume r: "r < 5" and k: "k < 5"
    have "?s k ! r \<in> set (?s k)"
      using r sel_length[OF k] by simp
    then have "?s k ! r \<in> Some ` {15 * k + 1..15 * k + 15}"
      using sel_ok[OF assms k] by blast
    then show "\<exists>n. ?s k ! r = Some n \<and> 15 * k + 1 \<le> n \<and> n \<le> 15 * k + 15"
      by auto
  qed
  have uniq: "\<And>r k r' k'. r < 5 \<Longrightarrow> k < 5 \<Longrightarrow> r' < 5 \<Longrightarrow> k' < 5 \<Longrightarrow> ?s k ! r = ?s k' ! r' \<Longrightarrow> r = r' \<and> k = k'"
  proof -
    fix r k r' k' :: nat
    assume r: "r < 5" and k: "k < 5" and r': "r' < 5" and k': "k' < 5" and e: "?s k ! r = ?s k' ! r'"
    obtain n where n: "?s k ! r = Some n" "15 * k + 1 \<le> n" "n \<le> 15 * k + 15"
      using inr[OF r k] by blast
    obtain n' where n': "?s k' ! r' = Some n'" "15 * k' + 1 \<le> n'" "n' \<le> 15 * k' + 15"
      using inr[OF r' k'] by blast
    have "n = n'" using e n(1) n'(1) by simp
    then have kk: "k = k'" using n n' by linarith
    have "distinct (?s k)" using sel_ok[OF assms k] by simp
    then have "r = r'"
      using e kk r r' sel_length[OF k] by (simp add: nth_eq_iff_index_eq)
    then show "r = r' \<and> k = k'" using kk by simp
  qed
  let ?g = "grid_of ?s"
  have a: "\<forall>r<5. \<forall>k<5. free (?g ! r ! k) \<longleftrightarrow> r = 2 \<and> k = 2"
    by (simp add: grid_of_nth)
  have b: "\<forall>r<5. \<forall>k<5. letter (?g ! r ! k) = fst (ranges ! k) \<and>
        (\<exists>n. number (?g ! r ! k) = Some n \<and> fst (snd (ranges ! k)) \<le> n \<and> n \<le> snd (snd (ranges ! k)))"
  proof (intro allI impI)
    fix r k :: nat
    assume r: "r < 5" and k: "k < 5"
    show "letter (?g ! r ! k) = fst (ranges ! k) \<and>
        (\<exists>n. number (?g ! r ! k) = Some n \<and> fst (snd (ranges ! k)) \<le> n \<and> n \<le> snd (snd (ranges ! k)))"
      using inr[OF r k] range_bounds[OF k] r k by (simp add: grid_of_nth)
  qed
  have c: "\<forall>r<5. \<forall>k<5. \<forall>r'<5. \<forall>k'<5. number (?g ! r ! k) = number (?g ! r' ! k') \<longrightarrow> r = r' \<and> k = k'"
  proof (intro allI impI)
    fix r k r' k' :: nat
    assume r: "r < 5" and k: "k < 5" and r': "r' < 5" and k': "k' < 5"
      and e: "number (?g ! r ! k) = number (?g ! r' ! k')"
    have "?s k ! r = ?s k' ! r'"
      using e r k r' k' by (simp add: grid_of_nth)
    then show "r = r' \<and> k = k'"
      by (rule uniq[OF r k r' k'])
  qed
  have d: "\<forall>msin'. (\<forall>idx. msin' ((show_nat cardNumber @ gameId) @ show_nat idx) =
                      msin ((show_nat cardNumber @ gameId) @ show_nat idx)) \<longrightarrow>
       generateCardNumbers msin' cardNumber gameId = generateCardNumbers msin cardNumber gameId"
    using generateCardNumbers_cong by blast
  have e: "\<exists>g. generateCardNumbers msin cardNumber gameId = Inr g \<and> grid5 g \<and>
     (\<forall>r<5. \<forall>k<5. free (g ! r ! k) \<longleftrightarrow> r = 2 \<and> k = 2) \<and>
     (\<forall>r<5. \<forall>k<5. letter (g ! r ! k) = fst (ranges ! k) \<and>
        (\<exists>n. number (g ! r ! k) = Some n \<and> fst (snd (ranges ! k)) \<le> n \<and> n \<le> snd (snd (ranges ! k)))) \<and>
     (\<forall>r<5. \<forall>k<5. \<forall>r'<5. \<forall>k'<5. number (g ! r ! k) = number (g ! r' ! k') \<longrightarrow> r = r' \<and> k = k')"
    using a b c grid5_grid_of[of ?s] generateCardNumbers_grid[of msin cardNumber gameId]
    by blast
  show ?thesis
    using d e by blast
qed

text \<open>A UUID round id (every seed is NaN) and the numeric id \<open>5\<close> with \<open>Math.sin\<close> taken as 0.\<close>

theorem generateCardNumbers_wellformed_witness:
  "(1::nat) \<le> 1 \<and>
   (\<exists>g. generateCardNumbers (\<lambda>s. 0) 1 ''550e8400-e29b-41d4-a716-446655440000'' = Inr g \<and> grid5 g \<and>
     (\<forall>r<5. \<forall>k<5. free (g ! r ! k) \<longleftrightarrow> r = 2 \<and> k = 2) \<and>
     (\<forall>r<5. \<forall>k<5. letter (g ! r ! k) = fst (ranges ! k) \<and>
        (\<exists>n. number (g ! r ! k) = Some n \<and> fst (snd (ranges ! k)) \<le> n \<and> n \<le> snd (snd (ranges ! k)))) \<and>
     (\<forall>r<5. \<forall>k<5. \<forall>r'<5. \<forall>k'<5. number (g ! r ! k) = number (g ! r' ! k') \<longrightarrow> r = r' \<and> k = k')) \<and>
   (\<forall>idx. (\<lambda>s. if s = ''x'' then 1 else 0) ((show_nat 1 @ ''5'') @ show_nat idx) =
           (\<lambda>s. 0::real) ((show_nat 1 @ ''5'') @ show_nat idx)) \<and>
   generateCardNumbers (\<lambda>s. if s = ''x'' then 1 else 0) 1 ''5'' = generateCardNumbers (\<lambda>s. 0) 1 ''5'' \<and>
   map_sum id (map (map number)) (generateCardNumbers (\<lambda>s. 0) 1 ''5'') =
     Inr [[Some 2, Some 17, Some 32, Some 47, Some 62],
          [Some 3, Some 18, Some 33, Some 48, Some 63],
          [Some 4, Some 19, Some 34, Some 49, Some 64],
          [Some 5, Some 20, Some 35, Some 50, Some 65],
          [Some 6, Some 21, Some 36, Some 51, Some 66]]"
proof -
  have h: "(1::nat) \<le> 1"
    by simp
  have n: "map_sum id (map (map number)) (generateCardNumbers (\<lambda>s. 0) 1 ''5'') =
     Inr [[Some 2, Some 17, Some 32, Some 47, Some 62],
          [Some 3, Some 18, Some 33, Some 48, Some 63],
          [Some 4, Some 19, Some 34, Some 49, Some 64],
          [Some 5, Some 20, Some 35, Some 50, Some 65],
          [Some 6, Some 21, Some 36, Some 51, Some 66]]"
    by code_simp
  have s: "\<forall>idx. (\<lambda>s. if s = ''x'' then 1 else 0) ((show_nat 1 @ ''5'') @ show_nat idx) =
           (\<lambda>s. 0::real) ((show_nat 1 @ ''5'') @ show_nat idx)"
    by (simp add: show_nat.simps[of "Suc 0"] digit_char_def)
  note t1 = generateCardNumbers_wellformed[OF h, of "\<lambda>s. 0" "''550e8400-e29b-41d4-a716-446655440000''"]
  note t2 = generateCardNumbers_wellformed[OF h, of "\<lambda>s. 0" "''5''"]
  have e: "generateCardNumbers (\<lambda>s. if s = ''x'' then 1 else 0) 1 ''5'' = generateCardNumbers (\<lambda>s. 0) 1 ''5''"
    using conjunct2[OF t2, rule_format, of "\<lambda>s. if s = ''x'' then 1 else 0"] s by simp
  show ?thesis
    by (intro conjI h n s e conjunct1[OF t1])
qed

text \<open>
  C10. For card numbers from 1 and round ids after which no numeric literal continues,
  the grid is the same whatever the card number and whatever the round: every seed is
  NaN, and the shuffle then does not depend on it.
\<close>

theorem generateCardNumbers_same_layout:
  assumes "1 \<le> c1" "1 \<le> c2" "non_numeric_id g1" "non_numeric_id g2"
  shows "generateCardNumbers msin c1 g1 = generateCardNumbers msin c2 g2"
proof -
  have "sel msin c1 g1 = sel msin c2 g2"
    by (intro ext) (simp add: sel_dead[OF assms(1,3)] sel_dead[OF assms(2,4)])
  then show ?thesis
    by (simp add: generateCardNumbers_grid)
qed

text \<open>Cards 1 and 400 of two rounds with UUID ids, and the layout they all share.\<close>

theorem generateCardNumbers_same_layout_witness:
  "(1::nat) \<le> 1 \<and> (1::nat) \<le> 400 \<and>
   non_numeric_id ''550e8400-e29b-41d4-a716-446655440000'' \<and>
   non_numeric_id ''12345678-1234-4234-8234-123456789012'' \<and>
   generateCardNumbers (\<lambda>s. 0) 1 ''550e8400-e29b-41d4-a716-446655440000'' =
     generateCardNumbers (\<lambda>s. 0) 400 ''12345678-1234-4234-8234-123456789012'' \<and>
   map_sum id (map (map number))
     (generateCardNumbers (\<lambda>s. 0) 1 ''550e8400-e29b-41d4-a716-446655440000'') =
     Inr [[Some 1, Some 16, Some 31, Some 46, Some 61],
          [Some 3, Some 18, Some 33, Some 48, Some 63],
          [Some 4, Some 19, Some 34, Some 49, Some 64],
          [Some 5, Some 20, Some 35, Some 50, Some 65],
          [Some 6, Some 21, Some 36, Some 51, Some 66]]"
proof -
  have h1: "(1::nat) \<le> 1" and h2: "(1::nat) \<le> 400"
    by simp_all
  have u1: "non_numeric_id ''550e8400-e29b-41d4-a716-446655440000''"
    by code_simp
  have u2: "non_numeric_id ''12345678-1234-4234-8234-123456789012''"
    by code_simp
  have l: "map_sum id (map (map number))
     (generateCardNumbers (\<lambda>s. 0) 1 ''550e8400-e29b-41d4-a716-446655440000'') =
     Inr [[Some 1, Some 16, Some 31, Some 46, Some 61],
          [Some 3, Some 18, Some 33, Some 48, Some 63],
          [Some 4, Some 19, Some 34, Some 49, Some 64],
          [Some 5, Some 20, Some 35, Some 50, Some 65],
          [Some 6, Some 21, Some 36, Some 51, Some 66]]"
    by code_simp
  show ?thesis
    by (intro conjI h1 h2 u1 u2 l generateCardNumbers_same_layout[OF h1 h2 u1 u2])
qed

section \<open>Properties of the engine's runs\<close>

subsection \<open>Creating rounds\<close>

lemma generate_cards_ok:
  "generate_cards (math_sin rt) gid ns = Inr (map (new_card rt gid) ns)"
  by (induction ns) (simp_all add: generateCardNumbers_grid new_card_def)

lemma createNewGame_fresh:
  assumes "newId \<notin> dom (db_games st)"
  shows "createNewGame rt st newId now =
     (Inr (new_game rt now),
      st\<lparr>db_games := (db_games st)(newId \<mapsto> new_game rt now),
         db_cards := db_cards st @ map (new_card rt newId) [1..<401],
         waitingGames := (waitingGames st)(newId \<mapsto> new_game rt now)\<rparr>)"
  using assms
  by (simp add: createNewGame_def generateGameCards_def generate_cards_ok new_game_def Let_def)

lemma createNewGame_exists:
  "newId \<in> dom (db_games st) \<Longrightarrow> createNewGame rt st newId now = (Inl CreateFailed, st)"
  by (simp add: createNewGame_def)

subsection \<open>Invariants\<close>

lemma shrinks_refl: "shrinks st st"
  by (auto simp: shrinks_def)

lemma shrinks_trans: "shrinks a b \<Longrightarrow> shrinks b c \<Longrightarrow> shrinks a c"
  unfolding shrinks_def by (intro conjI; metis)

lemma length_filter_maps:
  "map f xs = map f ys \<Longrightarrow> map g xs = map g ys \<Longrightarrow>
   length (filter (\<lambda>c. P (f c) (g c)) xs) = length (filter (\<lambda>c. P (f c) (g c)) ys)"
proof (induction xs arbitrary: ys)
  case Nil
  then show ?case by simp
next
  case (Cons x xs)
  then obtain y ys' where ys: "ys = y # ys'" by (cases ys) auto
  with Cons.prems have "f x = f y" "g x = g y" "map f xs = map f ys'" "map g xs = map g ys'"
    by auto
  with Cons.IH[of ys'] ys show ?case by simp
qed

lemma purchased_count_eq:
  assumes "map game_id (db_cards st') = map game_id (db_cards st)"
    and "map user_id (db_cards st') = map user_id (db_cards st)"
  shows "length (purchased_cards st' gid) = length (purchased_cards st gid)"
  unfolding purchased_cards_def purchased_def
  using length_filter_maps[OF assms, of "\<lambda>a b. a = gid \<and> b \<noteq> None"] by simp

lemma shrinks_inv:
  assumes "shrinks st st'" "inv st"
  shows "inv st'"
proof -
  have s1: "\<And>gid g. waitingGames st' gid = Some g \<Longrightarrow> waitingGames st gid = Some g"
    and s2: "\<And>gid g. activeGames st' gid = Some g \<Longrightarrow> activeGames st gid = Some g"
    and s3: "dom (db_games st') = dom (db_games st)"
    and s5: "map game_id (db_cards st') = map game_id (db_cards st)"
    and s6: "map user_id (db_cards st') = map user_id (db_cards st)"
    using assms(1) unfolding shrinks_def by blast+
  have cnt: "\<And>gid. length (purchased_cards st' gid) = length (purchased_cards st gid)"
    by (rule purchased_count_eq[OF s5 s6])
  have ids: "inv_ids st" and pt: "inv_pot st"
    using assms(2) by (simp_all add: inv_def)
  have "set (map game_id (db_cards st')) = set (map game_id (db_cards st))"
    using s5 by simp
  then have g: "game_id ` set (db_cards st') = game_id ` set (db_cards st)"
    by simp
  have g': "\<And>c. c \<in> set (db_cards st') \<Longrightarrow> game_id c \<in> game_id ` set (db_cards st)"
    unfolding g[symmetric] by simp
  have 1: "inv_ids st'"
    unfolding inv_ids_def
  proof (intro conjI)
    show "\<forall>c \<in> set (db_cards st'). game_id c \<in> dom (db_games st')"
      unfolding s3
    proof
      fix c
      assume "c \<in> set (db_cards st')"
      from g'[OF this] obtain c0 where "c0 \<in> set (db_cards st)" "game_id c = game_id c0"
        by auto
      then show "game_id c \<in> dom (db_games st)"
        using ids unfolding inv_ids_def by metis
    qed
    show "dom (waitingGames st') \<subseteq> dom (db_games st')"
      using ids s1 unfolding inv_ids_def s3 by blast
    show "dom (activeGames st') \<subseteq> dom (db_games st')"
      using ids s2 unfolding inv_ids_def s3 by blast
    show "dom (waitingGames st') \<inter> dom (activeGames st') = {}"
      using ids s1 s2 unfolding inv_ids_def by blast
  qed
  have 2: "inv_pot st'"
    using pt s1 s2 unfolding inv_pot_def cnt by blast
  show ?thesis
    using 1 2 by (simp add: inv_def)
qed

lemma dom_update_game: "dom (db_games (update_game gid f st)) = dom (db_games st)"
  by (auto simp: update_game_def split: option.splits)

lemma shrinks_update_game: "shrinks st (update_game gid f st)"
  by (auto simp: shrinks_def update_game_simps dom_update_game)

lemma shrinks_update_user: "shrinks st (update_user uid f st)"
  by (auto simp: shrinks_def update_user_simps)

lemma shrinks_users: "shrinks st (st\<lparr>db_users := us\<rparr>)"
  by (auto simp: shrinks_def)

lemma shrinks_drop_waiting: "shrinks st (st\<lparr>waitingGames := (waitingGames st)(gid := None)\<rparr>)"
  by (auto simp: shrinks_def)

lemma shrinks_drop_caller: "shrinks st (st\<lparr>callers := (callers st)(gid := None)\<rparr>)"
  by (auto simp: shrinks_def)

lemma shrinks_declareWinner: "shrinks st (declareWinner st gameId userId cardNumber now)"
  by (auto simp: shrinks_def declareWinner_def Let_def Transaction_unbound update_game_simps
      update_user_simps dom_update_game split: option.splits if_splits)

lemma shrinks_endGame: "shrinks st (endGame st gameId now)"
  by (auto simp: shrinks_def endGame_def Let_def update_game_simps dom_update_game
      split: option.splits if_splits)

lemma checkForWinners_cases:
  "checkForWinners rt st gameId now = st \<or>
   (\<exists>uid n. checkForWinners rt st gameId now = declareWinner st gameId uid n now)"
  by (auto simp: checkForWinners_def split: option.splits sum.splits)

lemma shrinks_checkForWinners: "shrinks st (checkForWinners rt st gameId now)"
  using checkForWinners_cases[of rt st gameId now] shrinks_refl shrinks_declareWinner by metis

lemma shrinks_refund_cards: "shrinks st (snd (refund_cards gameId game cs st))"
  by (induction cs arbitrary: st)
    (auto simp: Transaction_unbound Let_def shrinks_refl shrinks_update_user split: option.splits)

lemma refund_cards_none:
  "\<forall>c \<in> set cs. user_id c = None \<Longrightarrow> refund_cards gameId game cs st = (Inr (), st)"
  by (induction cs) auto

lemma refund_cards_first:
  "user_id c = Some uid \<Longrightarrow>
   refund_cards gameId game (c # cs) st =
     (Inl ReferenceError,
      update_user uid (\<lambda>u. u\<lparr>balance := dadd (balance u) (bet_amount (settings game))\<rparr>) st)"
  by (simp add: Transaction_unbound Let_def)

lemma new_cards_unpurchased: "filter (purchased gid) (map (new_card rt gid') ns) = []"
  by (induction ns) (simp_all add: purchased_def new_card_def)

lemma inv_createNewGame:
  assumes "inv st"
  shows "inv (snd (createNewGame rt st newId now))"
proof (cases "newId \<in> dom (db_games st)")
  case True
  then show ?thesis using assms by (simp add: createNewGame_exists)
next
  case False
  let ?st' = "st\<lparr>db_games := (db_games st)(newId \<mapsto> new_game rt now),
         db_cards := db_cards st @ map (new_card rt newId) [1..<401],
         waitingGames := (waitingGames st)(newId \<mapsto> new_game rt now)\<rparr>"
  have ids: "inv_ids st" and pt: "inv_pot st"
    using assms by (simp_all add: inv_def)
  have nw: "waitingGames st newId = None" and na: "activeGames st newId = None"
    using ids False unfolding inv_ids_def by blast+
  have nc: "filter (purchased newId) (db_cards st) = []"
    using ids False unfolding inv_ids_def by (auto simp: filter_empty_conv purchased_def)
  have cnt: "\<And>gid. purchased_cards ?st' gid = purchased_cards st gid"
    by (simp add: purchased_cards_def new_cards_unpurchased)
  have 1: "inv_ids ?st'"
    using ids na unfolding inv_ids_def by (auto simp: new_card_def)
  have 2: "inv_pot ?st'"
    unfolding inv_pot_def cnt
    using pt nc unfolding inv_pot_def by (auto simp: new_game_def purchased_cards_def)
  show ?thesis
    using 1 2 by (simp add: createNewGame_fresh[OF False] inv_def)
qed

lemma save_card_count:
  assumes "find (available gid n) xs = Some c"
  shows "length (filter (purchased gid') (save_card (available gid n) (c\<lparr>user_id := Some uid, purchased_at := t\<rparr>) xs)) =
         length (filter (purchased gid') xs) + (if gid' = gid then 1 else 0)"
  using assms
  by (induction xs) (auto simp: available_def purchased_def split: if_splits)

lemma save_card_ids:
  assumes "find (available gid n) xs = Some c"
  shows "map game_id (save_card (available gid n) (c\<lparr>user_id := Some uid, purchased_at := t\<rparr>) xs) = map game_id xs"
  using assms
  by (induction xs) (auto simp: available_def split: if_splits)

lemma purchaseCard_taken:
  assumes "waitingGames st gameId = Some game" "status game = Waiting"
    and "find (available gameId cardNumber) (db_cards st) = Some crd"
    and "db_users st userId = Some u" "\<not> dless (balance u) (bet_amount (settings game))"
  shows "fst (purchaseCard st gameId userId cardNumber now) = Inl ReferenceError"
    and "waitingGames (snd (purchaseCard st gameId userId cardNumber now)) =
           (waitingGames st)(gameId \<mapsto> game\<lparr>pot := dadd (pot game) (bet_amount (settings game))\<rparr>)"
    and "activeGames (snd (purchaseCard st gameId userId cardNumber now)) = activeGames st"
    and "callers (snd (purchaseCard st gameId userId cardNumber now)) = callers st"
    and "db_cards (snd (purchaseCard st gameId userId cardNumber now)) =
           save_card (available gameId cardNumber) (crd\<lparr>user_id := Some userId, purchased_at := Some now\<rparr>) (db_cards st)"
    and "db_games (snd (purchaseCard st gameId userId cardNumber now)) =
           (\<lambda>gid. if gid = gameId
                  then map_option (\<lambda>g. g\<lparr>pot := dadd (pot game) (bet_amount (settings game))\<rparr>) (db_games st gid)
                  else db_games st gid)"
    and "db_transactions (snd (purchaseCard st gameId userId cardNumber now)) = db_transactions st"
    and "db_users (snd (purchaseCard st gameId userId cardNumber now)) =
           (db_users st)(userId \<mapsto> u\<lparr>balance := dsub (balance u) (bet_amount (settings game))\<rparr>)"
  using assms
  by (auto simp: purchaseCard_def Let_def Transaction_unbound update_game_simps update_user_simps
      fun_eq_iff)

lemma purchaseCard_cases:
  "(snd (purchaseCard st gameId userId cardNumber now) = st \<and>
    fst (purchaseCard st gameId userId cardNumber now) \<noteq> Inl ReferenceError) \<or>
   (\<exists>game crd u. waitingGames st gameId = Some game \<and> status game = Waiting \<and>
      find (available gameId cardNumber) (db_cards st) = Some crd \<and>
      db_users st userId = Some u \<and> \<not> dless (balance u) (bet_amount (settings game)))"
  by (auto simp: purchaseCard_def Let_def split: option.splits if_splits)

lemma inv_purchaseCard:
  assumes "inv st"
  shows "inv (snd (purchaseCard st gameId userId cardNumber now))"
proof -
  let ?st' = "snd (purchaseCard st gameId userId cardNumber now)"
  consider "?st' = st"
    | game crd u where "waitingGames st gameId = Some game" "status game = Waiting"
        "find (available gameId cardNumber) (db_cards st) = Some crd"
        "db_users st userId = Some u" "\<not> dless (balance u) (bet_amount (settings game))"
    using purchaseCard_cases[of st gameId userId cardNumber now] by blast
  then show ?thesis
  proof cases
    case 1
    then show ?thesis using assms by simp
  next
    case 2
    note s = purchaseCard_taken[OF 2, of now]
    have ids: "inv_ids st" and pt: "inv_pot st"
      using assms by (simp_all add: inv_def)
    have na: "activeGames st gameId = None"
      using ids 2(1) unfolding inv_ids_def by blast
    have cnt: "\<And>gid. length (purchased_cards ?st' gid) =
        length (purchased_cards st gid) + (if gid = gameId then 1 else 0)"
      unfolding purchased_cards_def s(5) by (rule save_card_count[OF 2(3)])
    have gids: "map game_id (db_cards ?st') = map game_id (db_cards st)"
      unfolding s(5) by (rule save_card_ids[OF 2(3)])
    then have "set (map game_id (db_cards ?st')) = set (map game_id (db_cards st))"
      by simp
    then have gset: "game_id ` set (db_cards ?st') = game_id ` set (db_cards st)"
      by simp
    have dm: "dom (db_games ?st') = dom (db_games st)"
      unfolding s(6) by (auto split: if_splits)
    have i1: "inv_ids ?st'"
      unfolding inv_ids_def dm s(2) s(3)
    proof (intro conjI)
      show "\<forall>c \<in> set (db_cards ?st'). game_id c \<in> dom (db_games st)"
      proof
        fix c assume "c \<in> set (db_cards ?st')"
        then have "game_id c \<in> game_id ` set (db_cards st)"
          unfolding gset[symmetric] by simp
        then show "game_id c \<in> dom (db_games st)"
          using ids unfolding inv_ids_def by auto
      qed
      show "dom ((waitingGames st)(gameId \<mapsto> game\<lparr>pot := dadd (pot game) (bet_amount (settings game))\<rparr>)) \<subseteq> dom (db_games st)"
        using ids 2(1) unfolding inv_ids_def by auto
      show "dom (activeGames st) \<subseteq> dom (db_games st)"
        using ids unfolding inv_ids_def by simp
      show "dom ((waitingGames st)(gameId \<mapsto> game\<lparr>pot := dadd (pot game) (bet_amount (settings game))\<rparr>)) \<inter> dom (activeGames st) = {}"
        using ids na unfolding inv_ids_def by auto
    qed
    have i2: "inv_pot ?st'"
      unfolding inv_pot_def s(2) s(3) cnt
      using pt 2(1) na unfolding inv_pot_def
      by (auto split: if_splits)
    show ?thesis
      using i1 i2 by (simp add: inv_def)
  qed
qed

lemma inv_init: "inv init_engine"
  by (simp add: inv_def inv_ids_def inv_pot_def init_engine_def)

lemma cancelGame_cases:
  assumes "waitingGames st gameId = Some game"
  shows "(\<exists>m. shrinks st m \<and> cancelGame rt st gameId now newId = m \<and>
            db_order rt (purchased_cards st gameId) \<noteq> []) \<or>
         (\<exists>m. shrinks st m \<and> waitingGames m gameId = None \<and>
            cancelGame rt st gameId now newId = snd (createNewGame rt m newId now))"
proof -
  let ?u = "update_game gameId (\<lambda>g. g\<lparr>status := Cancelled, end_time := Some now\<rparr>) st"
  let ?cs = "db_order rt (purchased_cards st gameId)"
  obtain res m where r: "refund_cards gameId game ?cs ?u = (res, m)"
    by (cases "refund_cards gameId game ?cs ?u") auto
  have "shrinks ?u (snd (refund_cards gameId game ?cs ?u))"
    by (rule shrinks_refund_cards)
  then have "shrinks ?u m"
    using r by simp
  then have sm: "shrinks st m"
    by (rule shrinks_trans[OF shrinks_update_game])
  have pc: "purchased_cards ?u gameId = purchased_cards st gameId"
    by (simp add: purchased_cards_def update_game_simps)
  show ?thesis
  proof (cases res)
    case (Inl e)
    have ne: "?cs \<noteq> []"
    proof
      assume "?cs = []"
      then show False using r Inl by simp
    qed
    have "cancelGame rt st gameId now newId = m"
      using assms r Inl by (simp add: cancelGame_def Let_def pc)
    then show ?thesis using sm ne by blast
  next
    case (Inr u)
    let ?m' = "m\<lparr>waitingGames := (waitingGames m)(gameId := None)\<rparr>"
    have "shrinks st ?m'"
      by (rule shrinks_trans[OF sm shrinks_drop_waiting])
    moreover have "waitingGames ?m' gameId = None"
      by simp
    moreover have "cancelGame rt st gameId now newId = snd (createNewGame rt ?m' newId now)"
      using assms r Inr by (simp add: cancelGame_def Let_def pc)
    ultimately show ?thesis by blast
  qed
qed

lemma inv_cancelGame:
  assumes "inv st"
  shows "inv (cancelGame rt st gameId now newId)"
proof (cases "waitingGames st gameId")
  case None
  then show ?thesis using assms by (simp add: cancelGame_def)
next
  case (Some game)
  from cancelGame_cases[OF Some, of rt now newId] show ?thesis
    using shrinks_inv[OF _ assms] inv_createNewGame by metis
qed

lemma inv_activate:
  assumes "inv st" "waitingGames st gid = Some game"
  shows "inv (st\<lparr>waitingGames := (waitingGames st)(gid := None),
                  activeGames := (activeGames st)(gid \<mapsto> game\<lparr>status := Active, start_time := now\<rparr>),
                  callers := cs\<rparr>)"
proof -
  have ids: "inv_ids st" and pt: "inv_pot st"
    using assms(1) by (simp_all add: inv_def)
  have i1: "inv_ids (st\<lparr>waitingGames := (waitingGames st)(gid := None),
                  activeGames := (activeGames st)(gid \<mapsto> game\<lparr>status := Active, start_time := now\<rparr>),
                  callers := cs\<rparr>)"
    using ids assms(2) unfolding inv_ids_def by auto
  have i2: "inv_pot (st\<lparr>waitingGames := (waitingGames st)(gid := None),
                  activeGames := (activeGames st)(gid \<mapsto> game\<lparr>status := Active, start_time := now\<rparr>),
                  callers := cs\<rparr>)"
    using pt assms(2) unfolding inv_pot_def by (auto simp: purchased_cards_def split: if_splits)
  show ?thesis
    using i1 i2 by (simp add: inv_def)
qed

lemma startGame_activate:
  assumes "waitingGames st gameId = Some game" "\<not> length (purchased_cards st gameId) < 1"
  shows "startGame rt st gameId now rand newId =
     (let st1 = update_game gameId (\<lambda>g. g\<lparr>status := Active, start_time := now\<rparr>) st in
      st1\<lparr>waitingGames := (waitingGames st1)(gameId := None),
          activeGames := (activeGames st1)(gameId \<mapsto> game\<lparr>status := Active, start_time := now\<rparr>),
          callers := (callers st1)(gameId \<mapsto>
            \<lparr>allNumbers = shuffle_draws rand (length all_draws - 1) all_draws,
             startTime = now, numberIndex = 0\<rparr>)\<rparr>)"
  using assms
  by (simp add: startGame_def callNumbers_def Let_def update_game_simps)

lemma startGame_cancel:
  assumes "waitingGames st gameId = Some game" "length (purchased_cards st gameId) < 1"
  shows "startGame rt st gameId now rand newId = cancelGame rt st gameId now newId"
  using assms by (simp add: startGame_def Let_def)

lemma inv_startGame:
  assumes "inv st"
  shows "inv (startGame rt st gameId now rand newId)"
proof (cases "waitingGames st gameId")
  case None
  then show ?thesis using assms by (simp add: startGame_def)
next
  case (Some game)
  show ?thesis
  proof (cases "length (purchased_cards st gameId) < 1")
    case True
    show ?thesis
      unfolding startGame_cancel[OF Some True] by (rule inv_cancelGame[OF assms])
  next
    case False
    let ?st1 = "update_game gameId (\<lambda>g. g\<lparr>status := Active, start_time := now\<rparr>) st"
    have i: "inv ?st1"
      by (rule shrinks_inv[OF shrinks_update_game assms])
    have w: "waitingGames ?st1 gameId = Some game"
      using Some by (simp add: update_game_simps)
    show ?thesis
      unfolding startGame_activate[OF Some False] Let_def
      by (rule inv_activate[OF i w])
  qed
qed

lemma tick_stopped:
  "callers st gameId = None \<Longrightarrow> tick rt st gameId now = st"
  by (simp add: tick_def)

lemma tick_inactive:
  "callers st gameId = Some clr \<Longrightarrow> activeGames st gameId = None \<Longrightarrow>
   tick rt st gameId now = st\<lparr>callers := (callers st)(gameId := None)\<rparr>"
  by (simp add: tick_def)

lemma tick_exhausted:
  "callers st gameId = Some clr \<Longrightarrow> activeGames st gameId = Some game \<Longrightarrow>
   now - startTime clr > game_duration (settings game) * 1000 \<or> numberIndex clr \<ge> length (allNumbers clr) \<Longrightarrow>
   tick rt st gameId now = endGame (st\<lparr>callers := (callers st)(gameId := None)\<rparr>) gameId now"
  by (simp add: tick_def)

lemma tick_draw:
  "callers st gameId = Some clr \<Longrightarrow> activeGames st gameId = Some game \<Longrightarrow>
   \<not> (now - startTime clr > game_duration (settings game) * 1000 \<or> numberIndex clr \<ge> length (allNumbers clr)) \<Longrightarrow>
   tick rt st gameId now = checkForWinners rt (drawn st gameId clr game) gameId now"
  by (simp add: tick_def drawn_def Let_def)

lemma drawn_fields:
  "waitingGames (drawn st gameId clr game) = waitingGames st"
  "db_cards (drawn st gameId clr game) = db_cards st"
  "db_users (drawn st gameId clr game) = db_users st"
  "db_transactions (drawn st gameId clr game) = db_transactions st"
  "dom (db_games (drawn st gameId clr game)) = dom (db_games st)"
  "activeGames (drawn st gameId clr game) =
     (activeGames st)(gameId \<mapsto> game\<lparr>called_numbers := called_numbers game @ [(allNumbers clr ! numberIndex clr)\<lparr>d_called := True\<rparr>],
        current_calls := drop (length (called_numbers game @ [(allNumbers clr ! numberIndex clr)\<lparr>d_called := True\<rparr>]) - 3)
          (called_numbers game @ [(allNumbers clr ! numberIndex clr)\<lparr>d_called := True\<rparr>])\<rparr>)"
  by (simp_all add: drawn_def Let_def update_game_simps dom_update_game)

lemma inv_drawn:
  assumes "inv st" "activeGames st gameId = Some game"
  shows "inv (drawn st gameId clr game)"
proof -
  let ?st' = "drawn st gameId clr game"
  have ids: "inv_ids st" and pt: "inv_pot st"
    using assms(1) by (simp_all add: inv_def)
  have i1: "inv_ids ?st'"
    using ids assms(2) unfolding inv_ids_def drawn_fields by auto
  have cnt: "\<And>gid. purchased_cards ?st' gid = purchased_cards st gid"
    by (simp add: purchased_cards_def drawn_fields)
  have i2: "inv_pot ?st'"
    using pt assms(2) unfolding inv_pot_def cnt drawn_fields by (auto split: if_splits)
  show ?thesis
    using i1 i2 by (simp add: inv_def)
qed

lemma shrinks_tick_exhausted:
  "shrinks st (endGame (st\<lparr>callers := (callers st)(gameId := None)\<rparr>) gameId now)"
  by (auto simp: shrinks_def endGame_def Let_def update_game_simps dom_update_game
      split: option.splits if_splits)

lemma inv_tick:
  assumes "inv st"
  shows "inv (tick rt st gameId now)"
proof (cases "callers st gameId")
  case None
  then show ?thesis using assms by (simp add: tick_stopped)
next
  case (Some clr)
  show ?thesis
  proof (cases "activeGames st gameId")
    case None
    show ?thesis
      unfolding tick_inactive[OF Some None]
      by (rule shrinks_inv[OF shrinks_drop_caller assms])
  next
    case (Some game)
    note g = this
    show ?thesis
    proof (cases "now - startTime clr > game_duration (settings game) * 1000 \<or> numberIndex clr \<ge> length (allNumbers clr)")
      case True
      show ?thesis
        unfolding tick_exhausted[OF \<open>callers st gameId = Some clr\<close> g True]
        by (rule shrinks_inv[OF shrinks_tick_exhausted assms])
    next
      case False
      show ?thesis
        unfolding tick_draw[OF \<open>callers st gameId = Some clr\<close> g False]
        by (rule shrinks_inv[OF shrinks_checkForWinners inv_drawn[OF assms g]])
    qed
  qed
qed

lemma reachable_inv: "reachable rt st \<Longrightarrow> inv st"
proof (induction rule: reachable.induct)
  case r_init
  show ?case by (rule inv_init)
next
  case (r_create st newId now)
  then show ?case by (simp add: inv_createNewGame)
next
  case (r_user st uid u)
  show ?case by (rule shrinks_inv[OF shrinks_users r_user.IH])
next
  case (r_purchase st gameId userId cardNumber now)
  then show ?case by (simp add: inv_purchaseCard)
next
  case (r_start st rand gameId now newId)
  then show ?case by (simp add: inv_startGame)
next
  case (r_tick st gameId now)
  then show ?case by (simp add: inv_tick)
qed

subsection \<open>The pot\<close>

lemma live_game_iff:
  "inv_ids st \<Longrightarrow> live_game st gid = Some g \<longleftrightarrow> waitingGames st gid = Some g \<or> activeGames st gid = Some g"
  unfolding inv_ids_def live_game_def by (auto split: option.splits)

lemma live_shrinks:
  assumes "shrinks st st'" "inv_ids st" "live_game st' gid = Some g'"
  shows "live_game st gid = Some g'"
proof -
  have "waitingGames st' gid = Some g' \<or> activeGames st' gid = Some g'"
    using assms(3) by (auto simp: live_game_def split: option.splits)
  then have "waitingGames st gid = Some g' \<or> activeGames st gid = Some g'"
    using assms(1) unfolding shrinks_def by blast
  then show ?thesis
    using live_game_iff[OF assms(2)] by simp
qed

lemma live_in_db: "inv_ids st \<Longrightarrow> live_game st gid = Some g \<Longrightarrow> gid \<in> dom (db_games st)"
  unfolding inv_ids_def live_game_def by (auto split: option.splits)

lemma live_createNewGame:
  assumes "inv_ids st" "live_game (snd (createNewGame rt st newId now)) gid = Some g'"
  shows "live_game st gid = Some g' \<or> (newId \<notin> dom (db_games st) \<and> gid = newId \<and> g' = new_game rt now)"
proof (cases "newId \<in> dom (db_games st)")
  case True
  then show ?thesis using assms(2) by (simp add: createNewGame_exists)
next
  case False
  show ?thesis
    using assms(2) False unfolding createNewGame_fresh[OF False]
    by (auto simp: live_game_def split: option.splits if_splits)
qed

lemma live_tick:
  assumes "inv st" "live_game (tick rt st gameId now) gid = Some g'"
  shows "\<exists>g. live_game st gid = Some g \<and> pot g' = pot g \<and> settings g' = settings g"
proof -
  have ids: "inv_ids st" using assms(1) by (simp add: inv_def)
  show ?thesis
  proof (cases "callers st gameId")
    case None
    then show ?thesis using assms(2) by (simp add: tick_stopped)
  next
    case (Some clr)
    note c = this
    show ?thesis
    proof (cases "activeGames st gameId")
      case None
      have "live_game st gid = Some g'"
        using assms(2) unfolding tick_inactive[OF c None]
        by (auto simp: live_game_def split: option.splits)
      then show ?thesis by simp
    next
      case (Some game)
      note g = this
      show ?thesis
      proof (cases "now - startTime clr > game_duration (settings game) * 1000 \<or> numberIndex clr \<ge> length (allNumbers clr)")
        case True
        have "live_game st gid = Some g'"
          using assms(2) unfolding tick_exhausted[OF c g True]
          by (rule live_shrinks[OF shrinks_tick_exhausted ids])
        then show ?thesis by simp
      next
        case False
        have i': "inv_ids (drawn st gameId clr game)"
          using inv_drawn[OF assms(1) g] by (simp add: inv_def)
        have l: "live_game (drawn st gameId clr game) gid = Some g'"
          using assms(2) unfolding tick_draw[OF c g False]
          by (rule live_shrinks[OF shrinks_checkForWinners i'])
        have w: "waitingGames st gameId = None"
          using ids g unfolding inv_ids_def by blast
        show ?thesis
        proof (cases "gid = gameId")
          case True
          then show ?thesis
            using l g w by (auto simp: live_game_def drawn_fields split: option.splits)
        next
          case False
          then show ?thesis
            using l by (auto simp: live_game_def drawn_fields split: option.splits)
        qed
      qed
    qed
  qed
qed

lemma live_cancelGame:
  assumes "inv st" "live_game (cancelGame rt st gameId now newId) gid = Some g'"
  shows "live_game st gid = Some g' \<or> (gid = newId \<and> newId \<notin> dom (db_games st) \<and> pot g' = Finite 0)"
proof (cases "waitingGames st gameId")
  case None
  then show ?thesis using assms(2) by (simp add: cancelGame_def)
next
  case (Some game)
  have ids: "inv_ids st" using assms(1) by (simp add: inv_def)
  from cancelGame_cases[OF Some, of rt now newId] show ?thesis
  proof
    assume "\<exists>m. shrinks st m \<and> cancelGame rt st gameId now newId = m \<and>
            db_order rt (purchased_cards st gameId) \<noteq> []"
    then have "shrinks st (cancelGame rt st gameId now newId)" by auto
    from live_shrinks[OF this ids assms(2)] show ?thesis by simp
  next
    assume "\<exists>m. shrinks st m \<and> waitingGames m gameId = None \<and>
            cancelGame rt st gameId now newId = snd (createNewGame rt m newId now)"
    then obtain m where m: "shrinks st m"
        "cancelGame rt st gameId now newId = snd (createNewGame rt m newId now)"
      by auto
    have im: "inv_ids m"
      using shrinks_inv[OF m(1) assms(1)] by (simp add: inv_def)
    have dm: "dom (db_games m) = dom (db_games st)"
      using m(1) unfolding shrinks_def by blast
    from live_createNewGame[OF im assms(2)[unfolded m(2)]]
    show ?thesis
      unfolding dm using live_shrinks[OF m(1) ids] by (auto simp: new_game_def)
  qed
qed

lemma live_startGame:
  assumes "inv st" "live_game (startGame rt st gameId now rand newId) gid = Some g'"
  shows "(\<exists>g. live_game st gid = Some g \<and> pot g' = pot g \<and> settings g' = settings g) \<or>
         (gid = newId \<and> newId \<notin> dom (db_games st) \<and> pot g' = Finite 0)"
proof (cases "waitingGames st gameId")
  case None
  then show ?thesis using assms(2) by (simp add: startGame_def)
next
  case (Some game)
  show ?thesis
  proof (cases "length (purchased_cards st gameId) < 1")
    case True
    show ?thesis
      using live_cancelGame[OF assms(1) assms(2)[unfolded startGame_cancel[OF Some True]]] by auto
  next
    case False
    show ?thesis
      using assms(2) Some unfolding startGame_activate[OF Some False] Let_def
      by (auto simp: live_game_def update_game_simps split: option.splits if_splits)
  qed
qed

subsection \<open>Amounts that are whole numbers\<close>

lemma bit_length_bound: "0 \<le> n \<Longrightarrow> n < 2 ^ m \<Longrightarrow> bit_length n \<le> m"
proof (induction m arbitrary: n)
  case 0
  then have "n = 0" by simp
  then show ?case by (simp add: bit_length.simps)
next
  case (Suc m)
  show ?case
  proof (cases "n \<le> 0")
    case True
    then show ?thesis by (simp add: bit_length.simps)
  next
    case False
    have "n div 2 < 2 ^ m"
      using Suc.prems(2) by simp
    moreover have "0 \<le> n div 2"
      using Suc.prems(1) by simp
    ultimately have "bit_length (n div 2) \<le> m"
      using Suc.IH by blast
    then show ?thesis
      using False by (subst bit_length.simps) simp
  qed
qed

lemma round_even_int: "round_even (of_int n) = n"
  by (simp add: round_even_def)

lemma pow2_nonpos: "q \<le> 0 \<Longrightarrow> pow2 q = 1 / 2 ^ nat (- q)"
  by (cases "q = 0") (simp_all add: pow2_def)

lemma expo_int:
  assumes "k \<noteq> 0" "\<bar>k\<bar> < 2 ^ 53"
  shows "expo (of_int k) \<le> 52"
proof -
  have a: "(1::rat) \<le> \<bar>of_int k\<bar>"
    using assms(1) by (simp flip: of_int_abs)
  have f: "\<lfloor>\<bar>of_int k :: rat\<bar>\<rfloor> = \<bar>k\<bar>"
    by (simp flip: of_int_abs)
  have "bit_length \<bar>k\<bar> \<le> 53"
    by (rule bit_length_bound) (use assms(2) in auto)
  then show ?thesis
    using a f by (simp add: expo_def Let_def)
qed

lemma fl_of_int:
  assumes "\<bar>k\<bar> < 2 ^ 53"
  shows "fl (of_int k) = Finite (of_int k)"
proof (cases "k = 0")
  case True
  then show ?thesis by (simp add: fl_def)
next
  case False
  define q where "q = max (expo (of_int k) - 52) (- 1074)"
  have q: "q \<le> 0"
    using expo_int[OF False assms] by (simp add: q_def)
  define m where "m = nat (- q)"
  have p: "pow2 q = 1 / 2 ^ m"
    using pow2_nonpos[OF q] by (simp add: m_def)
  have "(of_int k :: rat) / pow2 q = of_int (k * 2 ^ m)"
    by (simp add: p)
  then have r: "round_even (of_int k / pow2 q) = k * 2 ^ m"
    by (simp only: round_even_int)
  have v: "of_int (round_even (of_int k / pow2 q)) * pow2 q = (of_int k :: rat)"
    unfolding r unfolding p by simp
  have e: "\<not> 1024 \<le> expo (of_int k)"
    using expo_int[OF False assms] by simp
  have "fl (of_int k) =
      (let r = of_int (round_even (of_int k / pow2 q)) * pow2 q
       in if r = 0 then Finite 0
          else if 1024 \<le> expo r then (if 0 < r then PlusInfinity else MinusInfinity)
          else Finite r)"
    using False by (simp add: fl_def Let_def q_def)
  then show ?thesis
    using False e by (simp add: v Let_def)
qed

lemma fl_of_nat: "n < 2 ^ 53 \<Longrightarrow> fl (of_nat n) = Finite (of_nat n)"
proof -
  assume "n < 2 ^ 53"
  then have "int n < 2 ^ 53"
    by (metis of_nat_less_iff of_nat_numeral of_nat_power)
  then have "\<bar>int n\<bar> < 2 ^ 53" by simp
  from fl_of_int[OF this] show ?thesis by simp
qed

lemma add_times_nat:
  "b * n < 2 ^ 53 \<Longrightarrow> add_times (Finite (of_nat b)) n = Finite (of_nat (b * n))"
proof (induction n)
  case 0
  show ?case by simp
next
  case (Suc n)
  have "b * n \<le> b * Suc n" by simp
  then have lt: "b * n < 2 ^ 53"
    using Suc.prems by linarith
  have "b * n + b < 2 ^ 53"
    using Suc.prems by simp
  from fl_of_nat[OF this] have "fl (of_nat (b * n) + of_nat b) = Finite (of_nat (b * n + b))"
    by simp
  then show ?case
    using Suc.IH[OF lt] by simp
qed

lemma dmul_nat:
  "b * n < 2 ^ 53 \<Longrightarrow> dmul (Finite (of_nat b)) (Finite (of_nat n)) = Finite (of_nat (b * n))"
  using fl_of_nat[of "b * n"] by simp

subsection \<open>The pot\<close>

lemma live_pot:
  assumes "reachable rt st" and "live_game st gid = Some g"
  shows "pot g = add_times (bet_amount (settings g)) (length (purchased_cards st gid))"
proof -
  have i: "inv st" by (rule reachable_inv[OF assms(1)])
  then have ids: "inv_ids st" and pt: "inv_pot st"
    by (simp_all add: inv_def)
  have "waitingGames st gid = Some g \<or> activeGames st gid = Some g"
    using assms(2) live_game_iff[OF ids] by simp
  then show ?thesis
    using pt unfolding inv_pot_def by blast
qed

text \<open>
  C6 (as amended). In every state the engine reaches, the pot of a live round (waiting
  or active) is what adding the bet amount to 0 once per purchased card leaves, in the
  arithmetic of doubles; when the bet amount is a whole number and bet times cards stays
  below \<open>2^53\<close>, that is the product. A round is created with pot 0 and no purchased card;
  a purchase that passes the checks (it then ends in the ReferenceError of
  \<^verbatim>\<open>Transaction.create\<close>) adds one purchased card and the bet amount; every other
  purchase, a countdown expiry and a caller tick leave the pot of a round that stays live
  as it is.
\<close>

theorem pot_matches_purchases:
  assumes "reachable rt st" and "live_game st gid = Some g"
  shows "pot g = add_times (bet_amount (settings g)) (length (purchased_cards st gid)) \<and>
    (\<forall>b. bet_amount (settings g) = Finite (of_nat b) \<and> b * length (purchased_cards st gid) < 2 ^ 53 \<longrightarrow>
       pot g = dmul (bet_amount (settings g)) (Finite (of_nat (length (purchased_cards st gid)))) \<and>
       pot g = Finite (of_nat (b * length (purchased_cards st gid)))) \<and>
    (\<forall>newId now g'. fst (createNewGame rt st newId now) = Inr g' \<longrightarrow>
       pot g' = Finite 0 \<and> purchased_cards (snd (createNewGame rt st newId now)) newId = [] \<and>
       live_game (snd (createNewGame rt st newId now)) newId = Some g') \<and>
    (\<forall>uid n now. fst (purchaseCard st gid uid n now) = Inl ReferenceError \<longrightarrow>
       length (purchased_cards (snd (purchaseCard st gid uid n now)) gid) = length (purchased_cards st gid) + 1 \<and>
       map_option pot (live_game (snd (purchaseCard st gid uid n now)) gid) =
         Some (dadd (pot g) (bet_amount (settings g)))) \<and>
    (\<forall>gameId uid n now g'. fst (purchaseCard st gameId uid n now) \<noteq> Inl ReferenceError \<or> gameId \<noteq> gid \<longrightarrow>
       live_game (snd (purchaseCard st gameId uid n now)) gid = Some g' \<longrightarrow> pot g' = pot g) \<and>
    (\<forall>gameId now rand newId g'.
       live_game (startGame rt st gameId now rand newId) gid = Some g' \<longrightarrow> pot g' = pot g) \<and>
    (\<forall>gameId now g'. live_game (tick rt st gameId now) gid = Some g' \<longrightarrow> pot g' = pot g)"
proof -
  have i: "inv st" by (rule reachable_inv[OF assms(1)])
  then have ids: "inv_ids st" and pt: "inv_pot st"
    by (simp_all add: inv_def)
  have indb: "gid \<in> dom (db_games st)"
    by (rule live_in_db[OF ids assms(2)])
  have A: "pot g = add_times (bet_amount (settings g)) (length (purchased_cards st gid))"
    by (rule live_pot[OF assms])
  have A2: "\<forall>b. bet_amount (settings g) = Finite (of_nat b) \<and> b * length (purchased_cards st gid) < 2 ^ 53 \<longrightarrow>
       pot g = dmul (bet_amount (settings g)) (Finite (of_nat (length (purchased_cards st gid)))) \<and>
       pot g = Finite (of_nat (b * length (purchased_cards st gid)))"
  proof (intro allI impI)
    fix b
    assume h: "bet_amount (settings g) = Finite (of_nat b) \<and> b * length (purchased_cards st gid) < 2 ^ 53"
    then have b: "bet_amount (settings g) = Finite (of_nat b)"
      and lt: "b * length (purchased_cards st gid) < 2 ^ 53"
      by simp_all
    note 1 = add_times_nat[OF lt]
    note 2 = dmul_nat[OF lt]
    show "pot g = dmul (bet_amount (settings g)) (Finite (of_nat (length (purchased_cards st gid)))) \<and>
       pot g = Finite (of_nat (b * length (purchased_cards st gid)))"
      unfolding A b 1 2 by (rule conjI; rule refl)
  qed
  have B: "\<forall>newId now g'. fst (createNewGame rt st newId now) = Inr g' \<longrightarrow>
       pot g' = Finite 0 \<and> purchased_cards (snd (createNewGame rt st newId now)) newId = [] \<and>
       live_game (snd (createNewGame rt st newId now)) newId = Some g'"
  proof (intro allI impI)
    fix newId now g'
    assume a: "fst (createNewGame rt st newId now) = Inr g'"
    have f: "newId \<notin> dom (db_games st)"
    proof
      assume "newId \<in> dom (db_games st)"
      from createNewGame_exists[OF this, of rt now] a show False by simp
    qed
    have nc: "filter (purchased newId) (db_cards st) = []"
      using ids f unfolding inv_ids_def by (auto simp: filter_empty_conv purchased_def)
    show "pot g' = Finite 0 \<and> purchased_cards (snd (createNewGame rt st newId now)) newId = [] \<and>
       live_game (snd (createNewGame rt st newId now)) newId = Some g'"
      using a nc unfolding createNewGame_fresh[OF f]
      by (auto simp: new_game_def purchased_cards_def new_cards_unpurchased live_game_def)
  qed
  have C: "\<forall>uid n now. fst (purchaseCard st gid uid n now) = Inl ReferenceError \<longrightarrow>
       length (purchased_cards (snd (purchaseCard st gid uid n now)) gid) = length (purchased_cards st gid) + 1 \<and>
       map_option pot (live_game (snd (purchaseCard st gid uid n now)) gid) =
         Some (dadd (pot g) (bet_amount (settings g)))"
  proof (intro allI impI)
    fix uid n now
    assume a: "fst (purchaseCard st gid uid n now) = Inl ReferenceError"
    then obtain game crd u where p: "waitingGames st gid = Some game" "status game = Waiting"
        "find (available gid n) (db_cards st) = Some crd"
        "db_users st uid = Some u" "\<not> dless (balance u) (bet_amount (settings game))"
      using purchaseCard_cases[of st gid uid n now] by blast
    have gg: "game = g"
      using p(1) assms(2) by (simp add: live_game_def)
    note s = purchaseCard_taken[OF p, of now]
    show "length (purchased_cards (snd (purchaseCard st gid uid n now)) gid) = length (purchased_cards st gid) + 1 \<and>
       map_option pot (live_game (snd (purchaseCard st gid uid n now)) gid) =
         Some (dadd (pot g) (bet_amount (settings g)))"
      unfolding purchased_cards_def s(5) live_game_def s(2)
      using save_card_count[OF p(3), where gid' = gid and uid = uid and t = "Some now"] gg by simp
  qed
  have D: "\<forall>gameId uid n now g'. fst (purchaseCard st gameId uid n now) \<noteq> Inl ReferenceError \<or> gameId \<noteq> gid \<longrightarrow>
       live_game (snd (purchaseCard st gameId uid n now)) gid = Some g' \<longrightarrow> pot g' = pot g"
  proof (intro allI impI)
    fix gameId uid n now g'
    assume a: "fst (purchaseCard st gameId uid n now) \<noteq> Inl ReferenceError \<or> gameId \<noteq> gid"
      and l: "live_game (snd (purchaseCard st gameId uid n now)) gid = Some g'"
    show "pot g' = pot g"
    proof (cases "snd (purchaseCard st gameId uid n now) = st")
      case True
      then show ?thesis using l assms(2) by simp
    next
      case False
      then obtain game crd u where p: "waitingGames st gameId = Some game" "status game = Waiting"
        "find (available gameId n) (db_cards st) = Some crd"
        "db_users st uid = Some u" "\<not> dless (balance u) (bet_amount (settings game))"
        using purchaseCard_cases[of st gameId uid n now] by blast
      note s = purchaseCard_taken[OF p, of now]
      have ne: "gameId \<noteq> gid"
        using a s(1) by auto
      show ?thesis
        using l assms(2) ne unfolding live_game_def s(2) s(3) by (auto split: option.splits)
    qed
  qed
  have E: "\<forall>gameId now rand newId g'.
       live_game (startGame rt st gameId now rand newId) gid = Some g' \<longrightarrow> pot g' = pot g"
  proof (intro allI impI)
    fix gameId now rand newId g'
    assume l: "live_game (startGame rt st gameId now rand newId) gid = Some g'"
    from live_startGame[OF i l] show "pot g' = pot g"
    proof
      assume "\<exists>g0. live_game st gid = Some g0 \<and> pot g' = pot g0 \<and> settings g' = settings g0"
      then show ?thesis using assms(2) by auto
    next
      assume "gid = newId \<and> newId \<notin> dom (db_games st) \<and> pot g' = Finite 0"
      then show ?thesis using indb by simp
    qed
  qed
  have F: "\<forall>gameId now g'. live_game (tick rt st gameId now) gid = Some g' \<longrightarrow> pot g' = pot g"
    using live_tick[OF i] assms(2) by fastforce
  show ?thesis
    using A A2 B C D E F by blast
qed

subsection \<open>Countdown expiry with no purchased card\<close>


subsection \<open>The example run\<close>

lemma ex_reachable:
  "reachable ex_rt ex_users" "reachable ex_rt ex_created" "reachable ex_rt ex_bought"
  "reachable ex_rt ex_started"
proof -
  show a: "reachable ex_rt ex_users"
    unfolding ex_users_def by (rule r_user[OF r_init])
  show b: "reachable ex_rt ex_created"
    unfolding ex_created_def by (rule r_create[OF a])
  show c: "reachable ex_rt ex_bought"
    unfolding ex_bought_def by (rule r_purchase[OF b])
  show "reachable ex_rt ex_started"
    unfolding ex_started_def by (rule r_start[OF c]) simp
qed

lemma ex_created_eq:
  "ex_created = ex_users\<lparr>db_games := (db_games ex_users)(''g1'' \<mapsto> new_game ex_rt 0),
         db_cards := db_cards ex_users @ map (new_card ex_rt ''g1'') [1..<401],
         waitingGames := (waitingGames ex_users)(''g1'' \<mapsto> new_game ex_rt 0)\<rparr>"
  unfolding ex_created_def
  by (subst createNewGame_fresh) (simp_all add: ex_users_def init_engine_def)

lemma ex_upt: "[1..<401] = 1 # [Suc 1..<401]"
  by (rule upt_conv_Cons) simp

lemma new_cards_unowned:
  "filter (\<lambda>c. game_id c = gid \<and> user_id c = Some uid) (map (new_card rt gid') ns) = []"
  by (induction ns) (simp_all add: new_card_def)

lemma save_card_user_count:
  assumes "find (available gid n) xs = Some c"
  shows "length (filter (\<lambda>c. game_id c = gid' \<and> user_id c = Some uid')
           (save_card (available gid n) (c\<lparr>user_id := Some uid, purchased_at := t\<rparr>) xs)) =
         length (filter (\<lambda>c. game_id c = gid' \<and> user_id c = Some uid') xs) +
           (if gid' = gid \<and> uid' = uid then 1 else 0)"
  using assms
  by (induction xs) (auto simp: available_def split: if_splits)

lemma ex_created_fields:
  "waitingGames ex_created ''g1'' = Some (new_game ex_rt 0)"
  "activeGames ex_created = Map.empty"
  "db_users ex_created ''u1'' = Some (ex_user\<lparr>balance := Finite 100\<rparr>)"
  "db_transactions ex_created = []"
  "db_games ex_created = [''g1'' \<mapsto> new_game ex_rt 0]"
  "find (available ''g1'' 1) (db_cards ex_created) = Some (new_card ex_rt ''g1'' 1)"
  "purchased_cards ex_created ''g1'' = []"
  "user_card_count ex_created ''g1'' ''u1'' = 0"
  unfolding ex_created_eq ex_upt
  by (simp_all add: ex_users_def init_engine_def available_def new_card_def
      purchased_cards_def purchased_def user_card_count_def new_cards_unpurchased[unfolded purchased_def]
      new_cards_unowned[unfolded new_card_def])

lemma ex_game_fields:
  "status (new_game ex_rt 0) = Waiting" "pot (new_game ex_rt 0) = Finite 0"
  "bet_amount (settings (new_game ex_rt 0)) = Finite 10" "min_players (settings (new_game ex_rt 0)) = 1"
  "\<not> dless (balance (ex_user\<lparr>balance := Finite 100\<rparr>)) (bet_amount (settings (new_game ex_rt 0)))"
  by (simp_all add: new_game_def ex_rt_def ex_settings_def)

lemma ex_amounts: "fl 10 = Finite 10" "fl 90 = Finite 90"
  using fl_of_int[of 10] fl_of_int[of 90] by simp_all

lemmas ex_purchase =
  purchaseCard_taken[OF ex_created_fields(1) ex_game_fields(1) ex_created_fields(6)
    ex_created_fields(3) ex_game_fields(5), of 1000, folded ex_bought_def]

lemma ex_bought_fields:
  "waitingGames ex_bought ''g1'' = Some ((new_game ex_rt 0)\<lparr>pot := Finite 10\<rparr>)"
  "live_game ex_bought ''g1'' = Some ((new_game ex_rt 0)\<lparr>pot := Finite 10\<rparr>)"
  "length (purchased_cards ex_bought ''g1'') = 1"
  "db_users ex_bought ''u1'' = Some (ex_user\<lparr>balance := Finite 90\<rparr>)"
  "db_transactions ex_bought = []"
  "db_games ex_bought ''g2'' = None"
  "user_card_count ex_bought ''g1'' ''u1'' = 1"
proof -
  note s = ex_purchase
  show w: "waitingGames ex_bought ''g1'' = Some ((new_game ex_rt 0)\<lparr>pot := Finite 10\<rparr>)"
    unfolding s(2) by (simp add: ex_game_fields ex_amounts)
  then show "live_game ex_bought ''g1'' = Some ((new_game ex_rt 0)\<lparr>pot := Finite 10\<rparr>)"
    by (simp add: live_game_def)
  show "length (purchased_cards ex_bought ''g1'') = 1"
    unfolding purchased_cards_def s(5)
    using save_card_count[OF ex_created_fields(6), where gid' = "''g1''" and uid = "''u1''" and t = "Some 1000"]
      ex_created_fields(7)
    by (simp add: purchased_cards_def)
  show "db_users ex_bought ''u1'' = Some (ex_user\<lparr>balance := Finite 90\<rparr>)"
    unfolding s(8) by (simp add: ex_game_fields ex_user_def ex_amounts dsub_def)
  show "db_transactions ex_bought = []"
    unfolding s(7) by (simp add: ex_created_fields)
  show "db_games ex_bought ''g2'' = None"
    unfolding s(6) by (simp add: ex_created_fields)
  show "user_card_count ex_bought ''g1'' ''u1'' = 1"
    unfolding user_card_count_def s(5)
    using save_card_user_count[OF ex_created_fields(6), where gid' = "''g1''" and uid' = "''u1''"
        and uid = "''u1''" and t = "Some 1000"]
      ex_created_fields(8)
    by (simp add: user_card_count_def)
qed

lemma ex_created_live: "live_game ex_created ''g1'' = Some (new_game ex_rt 0)"
  by (simp add: live_game_def ex_created_fields)

text \<open>
  The purchase of card 1 in the new round at bet 10: it ends in the ReferenceError,
  the round has one purchased card and pot 10, which is also 10 times 1.
\<close>

theorem pot_matches_purchases_witness:
  "reachable ex_rt ex_created \<and> live_game ex_created ''g1'' = Some (new_game ex_rt 0) \<and>
   pot (new_game ex_rt 0) = Finite 0 \<and> length (purchased_cards ex_created ''g1'') = 0 \<and>
   fst (purchaseCard ex_created ''g1'' ''u1'' 1 1000) = Inl ReferenceError \<and>
   reachable ex_rt ex_bought \<and>
   live_game ex_bought ''g1'' = Some ((new_game ex_rt 0)\<lparr>pot := Finite 10\<rparr>) \<and>
   bet_amount (settings ((new_game ex_rt 0)\<lparr>pot := Finite 10\<rparr>)) = Finite (of_nat 10) \<and>
   10 * length (purchased_cards ex_bought ''g1'') < (2::nat) ^ 53 \<and>
   length (purchased_cards ex_bought ''g1'') = 1 \<and>
   pot ((new_game ex_rt 0)\<lparr>pot := Finite 10\<rparr>) = add_times (Finite 10) 1 \<and>
   pot ((new_game ex_rt 0)\<lparr>pot := Finite 10\<rparr>) = dmul (Finite 10) (Finite 1) \<and>
   pot ((new_game ex_rt 0)\<lparr>pot := Finite 10\<rparr>) = Finite 10"
proof -
  note a = pot_matches_purchases[OF ex_reachable(3) ex_bought_fields(2)]
  note b = pot_matches_purchases[OF ex_reachable(2) ex_created_live]
  have bet: "bet_amount (settings ((new_game ex_rt 0)\<lparr>pot := Finite 10\<rparr>)) = Finite (of_nat 10)"
    by (simp add: ex_game_fields)
  have lt: "10 * length (purchased_cards ex_bought ''g1'') < (2::nat) ^ 53"
    by (simp add: ex_bought_fields)
  have a1: "pot ((new_game ex_rt 0)\<lparr>pot := Finite 10\<rparr>) = add_times (Finite 10) 1"
    using conjunct1[OF a] by (simp add: ex_bought_fields ex_game_fields ex_amounts)
  have a2: "pot ((new_game ex_rt 0)\<lparr>pot := Finite 10\<rparr>) = dmul (Finite 10) (Finite 1)"
    using conjunct1[OF conjunct2[OF a], rule_format, of 10] bet lt
    by (simp add: ex_bought_fields ex_game_fields ex_amounts)
  have e: "fst (purchaseCard ex_created ''g1'' ''u1'' 1 1000) = Inl ReferenceError"
    by (rule purchaseCard_taken(1)[OF ex_created_fields(1) ex_game_fields(1) ex_created_fields(6)
          ex_created_fields(3) ex_game_fields(5)])
  show ?thesis
    using a1 a2 bet lt e ex_reachable(2,3) ex_created_live ex_bought_fields(2,3)
    by (simp add: ex_game_fields ex_created_fields ex_amounts)
qed

lemma ex_started_eq:
  "ex_started =
     (let st1 = update_game ''g1'' (\<lambda>g. g\<lparr>status := Active, start_time := 30000\<rparr>) ex_bought in
      st1\<lparr>waitingGames := (waitingGames st1)(''g1'' := None),
          activeGames := (activeGames st1)(''g1'' \<mapsto> (new_game ex_rt 0)\<lparr>pot := Finite 10, status := Active, start_time := 30000\<rparr>),
          callers := (callers st1)(''g1'' \<mapsto> ex_caller)\<rparr>)"
  unfolding ex_started_def ex_caller_def
  by (subst startGame_activate[OF ex_bought_fields(1)]) (simp_all add: ex_bought_fields)

lemma ex_started_fields:
  "callers ex_started ''g1'' = Some ex_caller"
  "activeGames ex_started ''g1'' = Some ((new_game ex_rt 0)\<lparr>pot := Finite 10, status := Active, start_time := 30000\<rparr>)"
proof -
  show "callers ex_started ''g1'' = Some ex_caller"
    unfolding ex_started_eq by (simp add: Let_def)
  show "activeGames ex_started ''g1'' = Some ((new_game ex_rt 0)\<lparr>pot := Finite 10, status := Active, start_time := 30000\<rparr>)"
    unfolding ex_started_eq by (simp add: Let_def)
qed

text \<open>
  Ending the active round of \<open>ex_active\<close>; and the tick of the example run that comes
  more than 180 seconds after the start.
\<close>

theorem endGame_changes_only_status_witness:
  "activeGames ex_active ''g1'' = Some ex_game \<and> db_games ex_active ''g1'' = Some ex_game \<and>
   db_games (endGame ex_active ''g1'' 5000) ''g1'' =
     Some (ex_game\<lparr>status := Completed, end_time := Some 5000\<rparr>) \<and>
   pot (the (db_games (endGame ex_active ''g1'' 5000) ''g1'')) = Finite 100 \<and>
   db_users (endGame ex_active ''g1'' 5000) ''u1'' = Some ex_user \<and>
   db_transactions (endGame ex_active ''g1'' 5000) = [] \<and>
   callers ex_started ''g1'' = Some ex_caller \<and>
   activeGames ex_started ''g1'' =
     Some ((new_game ex_rt 0)\<lparr>pot := Finite 10, status := Active, start_time := 30000\<rparr>) \<and>
   210001 - startTime ex_caller >
     game_duration (settings ((new_game ex_rt 0)\<lparr>pot := Finite 10, status := Active, start_time := 30000\<rparr>)) * 1000 \<and>
   db_users (tick ex_rt ex_started ''g1'' 210001) = db_users ex_started \<and>
   db_transactions (tick ex_rt ex_started ''g1'' 210001) = db_transactions ex_started"
proof -
  have d: "210001 - startTime ex_caller >
     game_duration (settings ((new_game ex_rt 0)\<lparr>pot := Finite 10, status := Active, start_time := 30000\<rparr>)) * 1000"
    by (simp add: new_game_def ex_rt_def ex_settings_def ex_caller_def)
  have a: "activeGames ex_active ''g1'' = Some ex_game \<and> db_games ex_active ''g1'' = Some ex_game \<and>
   db_games (endGame ex_active ''g1'' 5000) ''g1'' =
     Some (ex_game\<lparr>status := Completed, end_time := Some 5000\<rparr>) \<and>
   pot (the (db_games (endGame ex_active ''g1'' 5000) ''g1'')) = Finite 100 \<and>
   db_users (endGame ex_active ''g1'' 5000) ''u1'' = Some ex_user \<and>
   db_transactions (endGame ex_active ''g1'' 5000) = []"
    using endGame_changes_only_status[of ex_active "''g1''" 5000 ex_rt]
    by (simp add: ex_active_def ex_game_def)
  have b: "db_users (tick ex_rt ex_started ''g1'' 210001) = db_users ex_started \<and>
   db_transactions (tick ex_rt ex_started ''g1'' 210001) = db_transactions ex_started"
    using endGame_changes_only_status[of ex_started "''g1''" 210001 ex_rt]
      ex_started_fields(1,2) d
    by blast
  show ?thesis
    using a b d ex_started_fields(1,2) by blast
qed

subsection \<open>Cancellation and refunds\<close>



end
